theory Spec2Isabelle
  imports Complex_Main "HOL-Library.Sublist"
begin

section \<open>The host platform: ECMAScript time values\<close>

text \<open>
  The class \<^verbatim>\<open>DateFlow\<close> wraps a native \<^verbatim>\<open>Date\<close> object and computes through its getters
  and setters. The native object is not part of the repository; it is modelled here after the
  ECMAScript language specification (section "Date Objects"): a time value is a whole number of
  milliseconds since the epoch, at most 8.64e15 in size, or NaN. Numbers are integers here:
  the time values and the calendar fields are whole numbers below \<open>2 ^ 53\<close>, and the doubles
  of the program are exact on them. Two computations can leave that range. The difference of
  two time values in \<open>diff\<close> is rounded as a double rounds it (\<open>double_of_int\<close>). A setter
  given a field so large that the time value passes \<open>2 ^ 53\<close> works on rounded doubles where
  the model works on the exact numbers; such a result is outside the range of a time value or
  rounds onto its boundary, and the model takes it to be outside.
\<close>

type_synonym tv = "int option"

definition msPerDay :: int where "msPerDay = 86400000"
definition msPerHour :: int where "msPerHour = 3600000"
definition msPerMinute :: int where "msPerMinute = 60000"
definition msPerSecond :: int where "msPerSecond = 1000"

definition DayNumber :: "int \<Rightarrow> int" where
  "DayNumber t = t div msPerDay"

definition TimeWithinDay :: "int \<Rightarrow> int" where
  "TimeWithinDay t = t mod msPerDay"

definition DaysInYear :: "int \<Rightarrow> int" where
  "DaysInYear y =
     (if y mod 4 \<noteq> 0 then 365
      else if y mod 100 \<noteq> 0 then 366
      else if y mod 400 \<noteq> 0 then 365
      else 366)"

definition DayFromYear :: "int \<Rightarrow> int" where
  "DayFromYear y =
     365 * (y - 1970) + (y - 1969) div 4 - (y - 1901) div 100 + (y - 1601) div 400"

text \<open>
  ECMAScript defines the year of a time value as the largest \<open>y\<close> whose first day is not
  after it. The executable form below starts from the average year length (146097 days in 400
  years) and corrects by at most one year; lemma \<open>YearFromDay_bounds\<close> shows that it meets
  the defining property.
\<close>

definition YearFromDay :: "int \<Rightarrow> int" where
  "YearFromDay d =
     (let y = 1970 + (d * 400) div 146097
      in if DayFromYear (y + 1) \<le> d then y + 1
         else if DayFromYear y \<le> d then y
         else y - 1)"

definition YearFromTime :: "int \<Rightarrow> int" where
  "YearFromTime t = YearFromDay (DayNumber t)"

definition InLeapYear :: "int \<Rightarrow> int" where
  "InLeapYear t = (if DaysInYear (YearFromTime t) = 366 then 1 else 0)"

definition DayWithinYear :: "int \<Rightarrow> int" where
  "DayWithinYear t = DayNumber t - DayFromYear (YearFromTime t)"

definition MonthFromTime :: "int \<Rightarrow> int" where
  "MonthFromTime t =
     (let d = DayWithinYear t; l = InLeapYear t
      in if d < 31 then 0
         else if d < 59 + l then 1
         else if d < 90 + l then 2
         else if d < 120 + l then 3
         else if d < 151 + l then 4
         else if d < 181 + l then 5
         else if d < 212 + l then 6
         else if d < 243 + l then 7
         else if d < 273 + l then 8
         else if d < 304 + l then 9
         else if d < 334 + l then 10
         else 11)"

definition DateFromTime :: "int \<Rightarrow> int" where
  "DateFromTime t =
     (let d = DayWithinYear t; l = InLeapYear t; m = MonthFromTime t
      in if m = 0 then d + 1
         else if m = 1 then d - 30
         else if m = 2 then d - 58 - l
         else if m = 3 then d - 89 - l
         else if m = 4 then d - 119 - l
         else if m = 5 then d - 150 - l
         else if m = 6 then d - 180 - l
         else if m = 7 then d - 211 - l
         else if m = 8 then d - 242 - l
         else if m = 9 then d - 272 - l
         else if m = 10 then d - 303 - l
         else d - 333 - l)"

definition WeekDay :: "int \<Rightarrow> int" where
  "WeekDay t = (DayNumber t + 4) mod 7"

definition HourFromTime :: "int \<Rightarrow> int" where
  "HourFromTime t = (t div msPerHour) mod 24"

definition MinFromTime :: "int \<Rightarrow> int" where
  "MinFromTime t = (t div msPerMinute) mod 60"

definition SecFromTime :: "int \<Rightarrow> int" where
  "SecFromTime t = (t div msPerSecond) mod 60"

definition msFromTime :: "int \<Rightarrow> int" where
  "msFromTime t = t mod msPerSecond"

definition MakeTime :: "int \<Rightarrow> int \<Rightarrow> int \<Rightarrow> int \<Rightarrow> int" where
  "MakeTime h m s milli = h * msPerHour + m * msPerMinute + s * msPerSecond + milli"

definition DaysBeforeMonth :: "int \<Rightarrow> int \<Rightarrow> int" where
  "DaysBeforeMonth y mn =
     (let l = (if DaysInYear y = 366 then 1 else 0)
      in if mn = 0 then 0
         else if mn = 1 then 31
         else if mn = 2 then 59 + l
         else if mn = 3 then 90 + l
         else if mn = 4 then 120 + l
         else if mn = 5 then 151 + l
         else if mn = 6 then 181 + l
         else if mn = 7 then 212 + l
         else if mn = 8 then 243 + l
         else if mn = 9 then 273 + l
         else if mn = 10 then 304 + l
         else 334 + l)"

text \<open>
  \<open>MakeDay\<close> carries months outside 0..11 into the year, takes the day number of the first
  of that month and adds \<open>date - 1\<close>; a date outside the month rolls over.
\<close>

definition MakeDay :: "int \<Rightarrow> int \<Rightarrow> int \<Rightarrow> int" where
  "MakeDay yr month dt =
     (let ym = yr + month div 12; mn = month mod 12
      in DayFromYear ym + DaysBeforeMonth ym mn + dt - 1)"

definition MakeDate :: "int \<Rightarrow> int \<Rightarrow> int" where
  "MakeDate dy tm = dy * msPerDay + tm"

definition maxTime :: int where "maxTime = 8640000000000000"

definition TimeClip :: "int \<Rightarrow> tv" where
  "TimeClip t = (if \<bar>t\<bar> > maxTime then None else Some t)"


text \<open>
  A JavaScript number that is not NaN is an \<open>int\<close> here wherever the program computes
  with whole numbers; \<open>None\<close> is NaN. \<open>ToIntegerOrInfinity\<close> truncates a fraction toward
  zero.
\<close>

type_synonym number = "int option"

definition ToIntegerOrInfinity :: "rat \<Rightarrow> int" where
  "ToIntegerOrInfinity r = (if r < 0 then \<lceil>r\<rceil> else \<lfloor>r\<rfloor>)"

definition num_plus :: "number \<Rightarrow> int \<Rightarrow> number" where
  "num_plus a n = map_option (\<lambda>i. i + n) a"

definition num_add :: "number \<Rightarrow> number \<Rightarrow> number" where
  "num_add a b = (case (a, b) of (Some i, Some j) \<Rightarrow> Some (i + j) | _ \<Rightarrow> None)"

definition num_minus :: "number \<Rightarrow> number \<Rightarrow> number" where
  "num_minus a b = (case (a, b) of (Some i, Some j) \<Rightarrow> Some (i - j) | _ \<Rightarrow> None)"

text \<open>
  The double nearest to a whole number: below \<open>2 ^ 53\<close> the number itself; above, the doubles
  are the multiples of a power of two (\<open>ulp_of\<close>), the nearer one is taken and a tie goes to
  the even multiple.
\<close>

fun ulp_of :: "nat \<Rightarrow> nat" where
  "ulp_of n = (if n < 2 ^ 53 then 1 else 2 * ulp_of (n div 2))"

declare ulp_of.simps [simp del]

definition double_of_int :: "int \<Rightarrow> int" where
  "double_of_int d =
     (let p = int (ulp_of (nat \<bar>d\<bar>)); q = d div p; r = d mod p
      in if 2 * r < p then q * p
         else if p < 2 * r then (q + 1) * p
         else if even q then q * p
         else (q + 1) * p)"

definition double_minus :: "number \<Rightarrow> number \<Rightarrow> number" where
  "double_minus a b = map_option double_of_int (num_minus a b)"

text \<open>
  The double nearest to the quotient \<open>i / k\<close> of two whole numbers, \<open>k\<close> positive. The
  numerator or the denominator is doubled (\<open>normalise\<close>) until the quotient lies between
  \<open>2 ^ 52\<close> and \<open>2 ^ 53\<close>, where the doubles are the whole numbers; the quotient is rounded
  to the nearest of them, a tie to the even one (\<open>round_half_even\<close>); and the doublings are
  undone. The exponent of a double is taken to be unbounded: the quotients of the program are
  far from the range of subnormal numbers and from overflow.
\<close>

function normalise :: "int \<Rightarrow> int \<Rightarrow> int \<times> int" where
  "normalise n d =
     (if n \<le> 0 \<or> d \<le> 0 then (n, d)
      else if n < 2 ^ 52 * d then normalise (2 * n) d
      else if 2 ^ 53 * d \<le> n then normalise n (2 * d)
      else (n, d))"
  by pat_completeness auto

termination
  by (relation "measure (\<lambda>(n, d). nat (2 ^ 52 * d - n) + nat (n - 2 ^ 53 * d + 1))") auto

declare normalise.simps [simp del]

definition round_half_even :: "int \<Rightarrow> int \<Rightarrow> int" where
  "round_half_even n d =
     (let q = n div d; r = n mod d
      in if 2 * r < d then q
         else if d < 2 * r then q + 1
         else if even q then q
         else q + 1)"

definition double_quot :: "int \<Rightarrow> int \<Rightarrow> rat" where
  "double_quot i k =
     (if i = 0 then 0
      else
        (let (n, d) = normalise \<bar>i\<bar> k;
             m = round_half_even n d
         in of_int (sgn i * m * d * \<bar>i\<bar>) / of_int (k * n)))"

definition strict_eq :: "'a option \<Rightarrow> 'a option \<Rightarrow> bool" where
  "strict_eq a b = (case (a, b) of (Some i, Some j) \<Rightarrow> i = j | _ \<Rightarrow> False)"

definition num_less :: "number \<Rightarrow> number \<Rightarrow> bool" where
  "num_less a b = (case (a, b) of (Some i, Some j) \<Rightarrow> i < j | _ \<Rightarrow> False)"

subsection \<open>System time zone, clock, parser and locale formatter\<close>

datatype FieldStyle = numeric | two_digit

record IntlOptions =
  timeZone :: string
  opt_year :: "FieldStyle option"
  opt_month :: "FieldStyle option"
  opt_day :: "FieldStyle option"
  opt_hour :: "FieldStyle option"
  opt_minute :: "FieldStyle option"
  opt_second :: "FieldStyle option"
  hour12 :: "bool option"

text \<open>
  What the program takes from its environment: the offset of the system time zone in
  milliseconds (\<open>LocalTZA t True\<close> for a UTC time \<open>t\<close>, \<open>LocalTZA t False\<close> for a local
  time), the system clock, \<^verbatim>\<open>Date.parse\<close> and \<^verbatim>\<open>Intl.DateTimeFormat\<close>.
\<close>

record host =
  LocalTZA :: "int \<Rightarrow> bool \<Rightarrow> int"
  clock :: int
  Date_parse :: "string \<Rightarrow> tv"
  Intl_format :: "string \<Rightarrow> IntlOptions \<Rightarrow> tv \<Rightarrow> string"

definition LocalTime :: "host \<Rightarrow> int \<Rightarrow> int" where
  "LocalTime H t = t + LocalTZA H t True"

definition UTC :: "host \<Rightarrow> int \<Rightarrow> int" where
  "UTC H t = t - LocalTZA H t False"

subsection \<open>Date objects on a heap\<close>

text \<open>
  A \<^verbatim>\<open>Date\<close> is a mutable object; the program copies and shares such objects, so they
  live in a store: the heap is the list of the time values of the objects allocated so far
  and an address is an index into it.
\<close>

type_synonym addr = nat
type_synonym heap = "tv list"

definition new_Date :: "heap \<Rightarrow> tv \<Rightarrow> addr \<times> heap" where
  "new_Date h v = (length h, h @ [v])"

definition getTime :: "heap \<Rightarrow> addr \<Rightarrow> tv" where
  "getTime h a = h ! a"

definition local_field :: "host \<Rightarrow> tv \<Rightarrow> (int \<Rightarrow> int) \<Rightarrow> number" where
  "local_field H v f = map_option (\<lambda>t. f (LocalTime H t)) v"

definition getFullYear :: "host \<Rightarrow> heap \<Rightarrow> addr \<Rightarrow> number" where
  "getFullYear H h a = local_field H (getTime h a) YearFromTime"

definition getMonth :: "host \<Rightarrow> heap \<Rightarrow> addr \<Rightarrow> number" where
  "getMonth H h a = local_field H (getTime h a) MonthFromTime"

definition getDate :: "host \<Rightarrow> heap \<Rightarrow> addr \<Rightarrow> number" where
  "getDate H h a = local_field H (getTime h a) DateFromTime"

definition getDay :: "host \<Rightarrow> heap \<Rightarrow> addr \<Rightarrow> number" where
  "getDay H h a = local_field H (getTime h a) WeekDay"

definition getHours :: "host \<Rightarrow> heap \<Rightarrow> addr \<Rightarrow> number" where
  "getHours H h a = local_field H (getTime h a) HourFromTime"

definition getMinutes :: "host \<Rightarrow> heap \<Rightarrow> addr \<Rightarrow> number" where
  "getMinutes H h a = local_field H (getTime h a) MinFromTime"

definition getSeconds :: "host \<Rightarrow> heap \<Rightarrow> addr \<Rightarrow> number" where
  "getSeconds H h a = local_field H (getTime h a) SecFromTime"

definition getMilliseconds :: "host \<Rightarrow> heap \<Rightarrow> addr \<Rightarrow> number" where
  "getMilliseconds H h a = local_field H (getTime h a) msFromTime"

definition tz_offset :: "host \<Rightarrow> tv \<Rightarrow> rat option" where
  "tz_offset H v = map_option (\<lambda>t. of_int (t - LocalTime H t) / of_int msPerMinute) v"

definition getTimezoneOffset :: "host \<Rightarrow> heap \<Rightarrow> addr \<Rightarrow> rat option" where
  "getTimezoneOffset H h a = tz_offset H (getTime h a)"

text \<open>
  The setters. An argument is a number (\<open>None\<close> is NaN); an optional argument that the
  call leaves out is \<open>None\<close> at the outer level. Each setter reads the local time, rebuilds
  it from the fields it keeps and the ones it is given, converts back to UTC and clips the
  result to the range of a time value; NaN in, or a NaN argument, gives NaN
  (\<^verbatim>\<open>setFullYear\<close> alone starts from +0 on an invalid date). \<open>Date_set...\<close> is the new time
  value; the method stores it in the object.
\<close>

definition arg_or :: "number option \<Rightarrow> int \<Rightarrow> number" where
  "arg_or a dflt = (case a of None \<Rightarrow> Some dflt | Some n \<Rightarrow> n)"

definition from_local :: "host \<Rightarrow> number \<Rightarrow> number \<Rightarrow> tv" where
  "from_local H dy tm =
     (case (dy, tm) of
        (Some d, Some t) \<Rightarrow> TimeClip (UTC H (MakeDate d t))
      | _ \<Rightarrow> None)"

definition MakeTime_num :: "number \<Rightarrow> number \<Rightarrow> number \<Rightarrow> number \<Rightarrow> number" where
  "MakeTime_num hr mi sc milli =
     (case (hr, mi, sc, milli) of
        (Some a, Some b, Some c, Some d) \<Rightarrow> Some (MakeTime a b c d)
      | _ \<Rightarrow> None)"

definition MakeDay_num :: "number \<Rightarrow> number \<Rightarrow> number \<Rightarrow> number" where
  "MakeDay_num yr mo dt =
     (case (yr, mo, dt) of
        (Some a, Some b, Some c) \<Rightarrow> Some (MakeDay a b c)
      | _ \<Rightarrow> None)"

definition Date_setMilliseconds :: "host \<Rightarrow> tv \<Rightarrow> number \<Rightarrow> tv" where
  "Date_setMilliseconds H v milli =
     (case v of
        None \<Rightarrow> None
      | Some t0 \<Rightarrow>
          (let t = LocalTime H t0
           in from_local H (Some (DayNumber t))
                (MakeTime_num (Some (HourFromTime t)) (Some (MinFromTime t))
                   (Some (SecFromTime t)) milli)))"

definition Date_setSeconds :: "host \<Rightarrow> tv \<Rightarrow> number \<Rightarrow> number option \<Rightarrow> tv" where
  "Date_setSeconds H v sc milli =
     (case v of
        None \<Rightarrow> None
      | Some t0 \<Rightarrow>
          (let t = LocalTime H t0
           in from_local H (Some (DayNumber t))
                (MakeTime_num (Some (HourFromTime t)) (Some (MinFromTime t)) sc
                   (arg_or milli (msFromTime t)))))"

definition Date_setMinutes ::
  "host \<Rightarrow> tv \<Rightarrow> number \<Rightarrow> number option \<Rightarrow> number option \<Rightarrow> tv" where
  "Date_setMinutes H v mi sc milli =
     (case v of
        None \<Rightarrow> None
      | Some t0 \<Rightarrow>
          (let t = LocalTime H t0
           in from_local H (Some (DayNumber t))
                (MakeTime_num (Some (HourFromTime t)) mi (arg_or sc (SecFromTime t))
                   (arg_or milli (msFromTime t)))))"

definition Date_setHours ::
  "host \<Rightarrow> tv \<Rightarrow> number \<Rightarrow> number option \<Rightarrow> number option \<Rightarrow> number option \<Rightarrow> tv" where
  "Date_setHours H v hr mi sc milli =
     (case v of
        None \<Rightarrow> None
      | Some t0 \<Rightarrow>
          (let t = LocalTime H t0
           in from_local H (Some (DayNumber t))
                (MakeTime_num hr (arg_or mi (MinFromTime t)) (arg_or sc (SecFromTime t))
                   (arg_or milli (msFromTime t)))))"

definition Date_setDate :: "host \<Rightarrow> tv \<Rightarrow> number \<Rightarrow> tv" where
  "Date_setDate H v dt =
     (case v of
        None \<Rightarrow> None
      | Some t0 \<Rightarrow>
          (let t = LocalTime H t0
           in from_local H
                (MakeDay_num (Some (YearFromTime t)) (Some (MonthFromTime t)) dt)
                (Some (TimeWithinDay t))))"

definition Date_setMonth :: "host \<Rightarrow> tv \<Rightarrow> number \<Rightarrow> number option \<Rightarrow> tv" where
  "Date_setMonth H v mo dt =
     (case v of
        None \<Rightarrow> None
      | Some t0 \<Rightarrow>
          (let t = LocalTime H t0
           in from_local H
                (MakeDay_num (Some (YearFromTime t)) mo (arg_or dt (DateFromTime t)))
                (Some (TimeWithinDay t))))"

definition Date_setFullYear ::
  "host \<Rightarrow> tv \<Rightarrow> number \<Rightarrow> number option \<Rightarrow> number option \<Rightarrow> tv" where
  "Date_setFullYear H v yr mo dt =
     (let t = (case v of None \<Rightarrow> 0 | Some t0 \<Rightarrow> LocalTime H t0)
      in from_local H
           (MakeDay_num yr (arg_or mo (MonthFromTime t)) (arg_or dt (DateFromTime t)))
           (Some (TimeWithinDay t)))"

definition setMilliseconds :: "host \<Rightarrow> heap \<Rightarrow> addr \<Rightarrow> number \<Rightarrow> heap" where
  "setMilliseconds H h a milli = h[a := Date_setMilliseconds H (getTime h a) milli]"

definition setSeconds :: "host \<Rightarrow> heap \<Rightarrow> addr \<Rightarrow> number \<Rightarrow> number option \<Rightarrow> heap" where
  "setSeconds H h a sc milli = h[a := Date_setSeconds H (getTime h a) sc milli]"

definition setMinutes ::
  "host \<Rightarrow> heap \<Rightarrow> addr \<Rightarrow> number \<Rightarrow> number option \<Rightarrow> number option \<Rightarrow> heap" where
  "setMinutes H h a mi sc milli = h[a := Date_setMinutes H (getTime h a) mi sc milli]"

definition setHours ::
  "host \<Rightarrow> heap \<Rightarrow> addr \<Rightarrow> number \<Rightarrow> number option \<Rightarrow> number option \<Rightarrow> number option \<Rightarrow> heap"
  where
  "setHours H h a hr mi sc milli = h[a := Date_setHours H (getTime h a) hr mi sc milli]"

definition setDate :: "host \<Rightarrow> heap \<Rightarrow> addr \<Rightarrow> number \<Rightarrow> heap" where
  "setDate H h a dt = h[a := Date_setDate H (getTime h a) dt]"

definition setMonth :: "host \<Rightarrow> heap \<Rightarrow> addr \<Rightarrow> number \<Rightarrow> number option \<Rightarrow> heap" where
  "setMonth H h a mo dt = h[a := Date_setMonth H (getTime h a) mo dt]"

definition setFullYear ::
  "host \<Rightarrow> heap \<Rightarrow> addr \<Rightarrow> number \<Rightarrow> number option \<Rightarrow> number option \<Rightarrow> heap" where
  "setFullYear H h a yr mo dt = h[a := Date_setFullYear H (getTime h a) yr mo dt]"

subsection \<open>Strings\<close>

text \<open>
  \<^verbatim>\<open>Number.prototype.toString\<close> on a whole number, \<^verbatim>\<open>padStart\<close> with a one-character
  filler, \<^verbatim>\<open>includes\<close>, and \<^verbatim>\<open>replace\<close> with a string pattern, which replaces the first
  occurrence only. (The replacements the program passes are digits, a sign or \<^verbatim>\<open>NaN\<close>; the
  dollar patterns of \<^verbatim>\<open>replace\<close> do not arise.)
\<close>

fun digits :: "nat \<Rightarrow> string" where
  "digits n = (if n < 10 then [''0123456789'' ! n] else digits (n div 10) @ [''0123456789'' ! (n mod 10)])"

declare digits.simps [simp del]

definition Number_toString :: "number \<Rightarrow> string" where
  "Number_toString n =
     (case n of
        None \<Rightarrow> ''NaN''
      | Some i \<Rightarrow> (if i < 0 then ''-'' @ digits (nat (- i)) else digits (nat i)))"

definition padStart :: "string \<Rightarrow> nat \<Rightarrow> char \<Rightarrow> string" where
  "padStart s n c = replicate (n - length s) c @ s"

fun String_includes :: "string \<Rightarrow> string \<Rightarrow> bool" where
  "String_includes [] pat = (pat = [])"
| "String_includes (c # cs) pat = (prefix pat (c # cs) \<or> String_includes cs pat)"

fun String_replace :: "string \<Rightarrow> string \<Rightarrow> string \<Rightarrow> string" where
  "String_replace [] pat rep = (if pat = [] then rep else [])"
| "String_replace (c # cs) pat rep =
     (if prefix pat (c # cs) then rep @ drop (length pat) (c # cs)
      else c # String_replace cs pat rep)"

text \<open>\<^verbatim>\<open>Date.prototype.toISOString\<close>: the UTC fields; a year outside 0..9999 is signed and
  has six digits.\<close>

definition pad_nat :: "nat \<Rightarrow> int \<Rightarrow> string" where
  "pad_nat n i = padStart (digits (nat i)) n (CHR ''0'')"

definition iso_year :: "int \<Rightarrow> string" where
  "iso_year y =
     (if 0 \<le> y \<and> y \<le> 9999 then pad_nat 4 y
      else (if y < 0 then ''-'' else ''+'') @ pad_nat 6 \<bar>y\<bar>)"

definition iso_string :: "int \<Rightarrow> string" where
  "iso_string t =
     iso_year (YearFromTime t) @ ''-'' @ pad_nat 2 (MonthFromTime t + 1) @ ''-'' @
     pad_nat 2 (DateFromTime t) @ ''T'' @ pad_nat 2 (HourFromTime t) @ '':'' @
     pad_nat 2 (MinFromTime t) @ '':'' @ pad_nat 2 (SecFromTime t) @ ''.'' @
     pad_nat 3 (msFromTime t) @ ''Z''"

datatype error = Error string | RangeError string

definition Date_toISOString :: "heap \<Rightarrow> addr \<Rightarrow> error + string" where
  "Date_toISOString h a =
     (case getTime h a of
        None \<Rightarrow> Inl (RangeError ''Invalid time value'')
      | Some t \<Rightarrow> Inr (iso_string t))"

section \<open>The class DateFlow\<close>

datatype UnitType = Year | Month | Week | Day | Hour | Minute | Second | Millisecond

datatype LocaleType = it_IT | en_EN | fr_FR | en_US | es_ES | de_DE | pt_BR | ja_JP | zh_CN | ru_RU

definition locale_tag :: "LocaleType \<Rightarrow> string" where
  "locale_tag l =
     (case l of
        it_IT \<Rightarrow> ''it-IT'' | en_EN \<Rightarrow> ''en-EN'' | fr_FR \<Rightarrow> ''fr-FR'' | en_US \<Rightarrow> ''en-US''
      | es_ES \<Rightarrow> ''es-ES'' | de_DE \<Rightarrow> ''de-DE'' | pt_BR \<Rightarrow> ''pt-BR'' | ja_JP \<Rightarrow> ''ja-JP''
      | zh_CN \<Rightarrow> ''zh-CN'' | ru_RU \<Rightarrow> ''ru-RU'')"

text \<open>
  The three private fields. \<open>p_date\<close> is a reference to a \<^verbatim>\<open>Date\<close> object. A format is a
  string (the sixteen patterns of \<^verbatim>\<open>DateFormatType\<close> are among them); the empty string is
  falsy, as in JavaScript.
\<close>

record DateFlow =
  p_date :: addr
  p_dateFormat :: "string option"
  p_locale :: "LocaleType option"

text \<open>What the constructor accepts as \<^verbatim>\<open>date\<close>: a \<^verbatim>\<open>Date\<close> object, a number (\<open>None\<close> for NaN
  and the infinities) or a string.\<close>

datatype DateInput = DateObj addr | Num "rat option" | Str string

record Options =
  o_date :: "DateInput option"
  o_dateFormat :: "string option"
  o_locale :: "LocaleType option"

definition Date_of_number :: "rat option \<Rightarrow> tv" where
  "Date_of_number n =
     (case n of
        None \<Rightarrow> None
      | Some r \<Rightarrow> (if \<bar>r\<bar> > of_int maxTime then None else Some (ToIntegerOrInfinity r)))"

definition constructor :: "host \<Rightarrow> heap \<Rightarrow> Options \<Rightarrow> (error + DateFlow) \<times> heap" where
  "constructor H h opts =
     (let (d, h1) =
        (case o_date opts of
           None \<Rightarrow> new_Date h (Some (clock H))
         | Some (DateObj a) \<Rightarrow> (a, h)
         | Some (Num n) \<Rightarrow> new_Date h (Date_of_number n)
         | Some (Str s) \<Rightarrow> new_Date h (Date_parse H s))
      in if getTime h1 d = None then (Inl (Error ''Invalid date provided''), h1)
         else (Inr \<lparr>p_date = d, p_dateFormat = o_dateFormat opts, p_locale = o_locale opts\<rparr>,
               h1))"

subsection \<open>Getters\<close>

definition day :: "host \<Rightarrow> heap \<Rightarrow> DateFlow \<Rightarrow> number" where
  "day H h x = getDate H h (p_date x)"

definition month :: "host \<Rightarrow> heap \<Rightarrow> DateFlow \<Rightarrow> number" where
  "month H h x = num_plus (getMonth H h (p_date x)) 1"

definition year :: "host \<Rightarrow> heap \<Rightarrow> DateFlow \<Rightarrow> number" where
  "year H h x = getFullYear H h (p_date x)"

definition hour :: "host \<Rightarrow> heap \<Rightarrow> DateFlow \<Rightarrow> number" where
  "hour H h x = getHours H h (p_date x)"

definition minute :: "host \<Rightarrow> heap \<Rightarrow> DateFlow \<Rightarrow> number" where
  "minute H h x = getMinutes H h (p_date x)"

definition second :: "host \<Rightarrow> heap \<Rightarrow> DateFlow \<Rightarrow> number" where
  "second H h x = getSeconds H h (p_date x)"

definition millisecond :: "host \<Rightarrow> heap \<Rightarrow> DateFlow \<Rightarrow> number" where
  "millisecond H h x = getMilliseconds H h (p_date x)"

definition valueOf :: "heap \<Rightarrow> DateFlow \<Rightarrow> tv" where
  "valueOf h x = getTime h (p_date x)"

definition toISOString :: "heap \<Rightarrow> DateFlow \<Rightarrow> error + string" where
  "toISOString h x = Date_toISOString h (p_date x)"

subsection \<open>add, subtract\<close>

text \<open>
  The comparison \<^verbatim>\<open>originalOffset !== newOffset\<close> is true when either side is NaN. The
  difference of two offsets can be a fraction of a minute; \<^verbatim>\<open>setMinutes\<close> truncates its
  argument, which is written out here at the call.
\<close>

definition dst_minutes :: "number \<Rightarrow> rat option \<Rightarrow> rat option \<Rightarrow> number" where
  "dst_minutes mins newOffset originalOffset =
     (case (mins, newOffset, originalOffset) of
        (Some m, Some n, Some o') \<Rightarrow> Some (ToIntegerOrInfinity (of_int m - (n - o')))
      | _ \<Rightarrow> None)"

definition modifyDate ::
  "host \<Rightarrow> heap \<Rightarrow> DateFlow \<Rightarrow> int \<Rightarrow> UnitType \<Rightarrow> (error + DateFlow) \<times> heap" where
  "modifyDate H h x amount u =
     (let (newDate, h1) = new_Date h (getTime h (p_date x));
          h2 = (case u of
                  Year \<Rightarrow> setFullYear H h1 newDate (num_plus (getFullYear H h1 newDate) amount) None None
                | Month \<Rightarrow> setMonth H h1 newDate (num_plus (getMonth H h1 newDate) amount) None
                | Week \<Rightarrow> setDate H h1 newDate (num_plus (getDate H h1 newDate) (amount * 7))
                | Day \<Rightarrow> setDate H h1 newDate (num_plus (getDate H h1 newDate) amount)
                | Hour \<Rightarrow> setHours H h1 newDate (num_plus (getHours H h1 newDate) amount) None None None
                | Minute \<Rightarrow> setMinutes H h1 newDate (num_plus (getMinutes H h1 newDate) amount) None None
                | Second \<Rightarrow> setSeconds H h1 newDate (num_plus (getSeconds H h1 newDate) amount) None
                | Millisecond \<Rightarrow>
                    setMilliseconds H h1 newDate (num_plus (getMilliseconds H h1 newDate) amount));
          h3 = (if p_locale x \<noteq> None then
                  (let originalOffset = getTimezoneOffset H h2 (p_date x);
                       newOffset = getTimezoneOffset H h2 newDate
                   in if \<not> strict_eq originalOffset newOffset
                      then setMinutes H h2 newDate
                             (dst_minutes (getMinutes H h2 newDate) newOffset originalOffset)
                             None None
                      else h2)
                else h2)
      in constructor H h3
           \<lparr>o_date = Some (DateObj newDate), o_dateFormat = p_dateFormat x,
            o_locale = p_locale x\<rparr>)"

definition add ::
  "host \<Rightarrow> heap \<Rightarrow> DateFlow \<Rightarrow> int \<Rightarrow> UnitType \<Rightarrow> (error + DateFlow) \<times> heap" where
  "add H h x amount u = modifyDate H h x amount u"

definition subtract ::
  "host \<Rightarrow> heap \<Rightarrow> DateFlow \<Rightarrow> int \<Rightarrow> UnitType \<Rightarrow> (error + DateFlow) \<times> heap" where
  "subtract H h x amount u = modifyDate H h x (- amount) u"


subsection \<open>format\<close>

datatype FormatParam =
  NoParam | PatternParam string | OptionsParam "string option" "LocaleType option"

definition truthy :: "string option \<Rightarrow> bool" where
  "truthy s = (case s of None \<Rightarrow> False | Some t \<Rightarrow> t \<noteq> [])"

definition getTimeZoneFromLocale :: "LocaleType \<Rightarrow> string" where
  "getTimeZoneFromLocale l =
     (case l of
        it_IT \<Rightarrow> ''Europe/Rome''
      | fr_FR \<Rightarrow> ''Europe/Paris''
      | es_ES \<Rightarrow> ''Europe/Madrid''
      | de_DE \<Rightarrow> ''Europe/Berlin''
      | pt_BR \<Rightarrow> ''America/Sao_Paulo''
      | ja_JP \<Rightarrow> ''Asia/Tokyo''
      | zh_CN \<Rightarrow> ''Asia/Shanghai''
      | ru_RU \<Rightarrow> ''Europe/Moscow''
      | en_EN \<Rightarrow> ''Europe/London''
      | en_US \<Rightarrow> ''America/New_York'')"

definition intl_options :: "LocaleType \<Rightarrow> string option \<Rightarrow> IntlOptions" where
  "intl_options effectiveLocale dateFormat =
     (let tz = getTimeZoneFromLocale effectiveLocale
      in case dateFormat of
           Some f \<Rightarrow>
             (let md = (if String_includes f ''/'' then numeric else two_digit);
                  base = \<lparr>timeZone = tz, opt_year = Some numeric, opt_month = Some md,
                          opt_day = Some md, opt_hour = None, opt_minute = None,
                          opt_second = None, hour12 = None\<rparr>
              in if String_includes f ''HH:mm:ss''
                 then base\<lparr>opt_hour := Some numeric, opt_minute := Some numeric,
                           opt_second := Some numeric, hour12 := Some False\<rparr>
                 else if String_includes f ''HH:mm''
                 then base\<lparr>opt_hour := Some numeric, opt_minute := Some numeric,
                           hour12 := Some False\<rparr>
                 else if String_includes f ''HH''
                 then base\<lparr>opt_hour := Some numeric, hour12 := Some False\<rparr>
                 else base)
         | None \<Rightarrow>
             \<lparr>timeZone = tz, opt_year = Some numeric, opt_month = Some two_digit,
              opt_day = Some two_digit, opt_hour = Some numeric, opt_minute = Some numeric,
              opt_second = Some numeric, hour12 = Some False\<rparr>)"

definition manual_format :: "host \<Rightarrow> heap \<Rightarrow> DateFlow \<Rightarrow> string \<Rightarrow> string" where
  "manual_format H h x dateFormat =
     (let yr = Number_toString (year H h x);
          mo = padStart (Number_toString (month H h x)) 2 (CHR ''0'');
          dy = padStart (Number_toString (day H h x)) 2 (CHR ''0'');
          hr = padStart (Number_toString (hour H h x)) 2 (CHR ''0'');
          mi = padStart (Number_toString (minute H h x)) 2 (CHR ''0'');
          sc = padStart (Number_toString (second H h x)) 2 (CHR ''0'');
          r1 = String_replace dateFormat ''YYYY'' yr;
          r2 = String_replace r1 ''MM'' mo;
          r3 = String_replace r2 ''DD'' dy;
          r4 = (if String_includes r3 ''HH'' then String_replace r3 ''HH'' hr else r3);
          r5 = (if String_includes r4 ''mm'' then String_replace r4 ''mm'' mi else r4);
          r6 = (if String_includes r5 ''ss'' then String_replace r5 ''ss'' sc else r5)
      in r6)"

definition format :: "host \<Rightarrow> heap \<Rightarrow> DateFlow \<Rightarrow> FormatParam \<Rightarrow> error + string" where
  "format H h x param =
     (let (dateFormat0, locale0) =
            (case param of
               PatternParam p \<Rightarrow> (Some p, None)
             | OptionsParam f l \<Rightarrow> (f, l)
             | NoParam \<Rightarrow> (None, None));
          dateFormat = (if truthy dateFormat0 then dateFormat0 else p_dateFormat x);
          effectiveLocale = (case locale0 of Some l \<Rightarrow> Some l | None \<Rightarrow> p_locale x)
      in case effectiveLocale of
           Some l \<Rightarrow>
             Inr (Intl_format H (locale_tag l)
                    (intl_options l (if truthy dateFormat then dateFormat else None))
                    (getTime h (p_date x)))
         | None \<Rightarrow>
             (case (if truthy dateFormat then dateFormat else None) of
                None \<Rightarrow> Date_toISOString h (p_date x)
              | Some f \<Rightarrow> Inr (manual_format H h x f)))"

subsection \<open>Comparison and difference\<close>

datatype DateOrFlow = ADate addr | AFlow DateFlow






text \<open>
  \<^verbatim>\<open>Math.floor(diffMs / k)\<close>: the quotient is a double, and the floor is taken of it. By
  \<open>floor_div_valid\<close> below, for the difference of two time values and each of the divisors
  of \<open>diff\<close> this is the floor of the exact quotient of \<open>diffMs\<close> by \<open>k\<close>.
\<close>

definition floor_div :: "number \<Rightarrow> int \<Rightarrow> number" where
  "floor_div n k = map_option (\<lambda>i. \<lfloor>double_quot i k\<rfloor>) n"

definition diff :: "host \<Rightarrow> heap \<Rightarrow> DateFlow \<Rightarrow> DateOrFlow \<Rightarrow> UnitType \<Rightarrow> number" where
  "diff H h x otherDate u =
     (let otherTime = (case otherDate of AFlow y \<Rightarrow> getTime h (p_date y) | ADate a \<Rightarrow> getTime h a);
          thisTime = getTime h (p_date x);
          diffMs = double_minus thisTime otherTime
      in case u of
           Millisecond \<Rightarrow> diffMs
         | Second \<Rightarrow> floor_div diffMs 1000
         | Minute \<Rightarrow> floor_div diffMs (1000 * 60)
         | Hour \<Rightarrow> floor_div diffMs (1000 * 60 * 60)
         | Day \<Rightarrow> floor_div diffMs (1000 * 60 * 60 * 24)
         | Week \<Rightarrow> floor_div diffMs (1000 * 60 * 60 * 24 * 7)
         | Month \<Rightarrow>
             (let thisYear = getFullYear H h (p_date x);
                  thisMonth = getMonth H h (p_date x);
                  otherInstanceDate = (case otherDate of AFlow y \<Rightarrow> p_date y | ADate a \<Rightarrow> a);
                  otherYear = getFullYear H h otherInstanceDate;
                  otherMonth = getMonth H h otherInstanceDate
              in case (num_minus thisYear otherYear, num_minus thisMonth otherMonth) of
                   (Some dy, Some dm) \<Rightarrow> Some (dy * 12 + dm)
                 | _ \<Rightarrow> None)
         | Year \<Rightarrow>
             (let otherInstanceYearDate = (case otherDate of AFlow y \<Rightarrow> p_date y | ADate a \<Rightarrow> a)
              in num_minus (getFullYear H h (p_date x)) (getFullYear H h otherInstanceYearDate)))"

subsection \<open>startOf, endOf, clone\<close>

definition startOf :: "host \<Rightarrow> heap \<Rightarrow> DateFlow \<Rightarrow> UnitType \<Rightarrow> (error + DateFlow) \<times> heap" where
  "startOf H h x u =
     (let (newDate, h1) = new_Date h (getTime h (p_date x));
          z = Some (Some 0);
          h2 = (case u of
                  Year \<Rightarrow> setHours H (setMonth H h1 newDate (Some 0) (Some (Some 1))) newDate (Some 0) z z z
                | Month \<Rightarrow> setHours H (setDate H h1 newDate (Some 1)) newDate (Some 0) z z z
                | Week \<Rightarrow>
                    (let dayOfWeek = getDay H h1 newDate
                     in setHours H
                          (setDate H h1 newDate (num_minus (getDate H h1 newDate) dayOfWeek))
                          newDate (Some 0) z z z)
                | Day \<Rightarrow> setHours H h1 newDate (Some 0) z z z
                | Hour \<Rightarrow> setMinutes H h1 newDate (Some 0) z z
                | Minute \<Rightarrow> setSeconds H h1 newDate (Some 0) z
                | Second \<Rightarrow> setMilliseconds H h1 newDate (Some 0)
                | Millisecond \<Rightarrow> h1)
      in constructor H h2
           \<lparr>o_date = Some (DateObj newDate), o_dateFormat = p_dateFormat x,
            o_locale = p_locale x\<rparr>)"

definition endOf :: "host \<Rightarrow> heap \<Rightarrow> DateFlow \<Rightarrow> UnitType \<Rightarrow> (error + DateFlow) \<times> heap" where
  "endOf H h x u =
     (let (newDate, h1) = new_Date h (getTime h (p_date x));
          m59 = Some (Some 59); ms999 = Some (Some 999);
          h2 = (case u of
                  Year \<Rightarrow>
                    setHours H (setMonth H h1 newDate (Some 11) (Some (Some 31))) newDate
                      (Some 23) m59 m59 ms999
                | Month \<Rightarrow>
                    setHours H
                      (setMonth H h1 newDate (num_plus (getMonth H h1 newDate) 1) (Some (Some 0)))
                      newDate (Some 23) m59 m59 ms999
                | Week \<Rightarrow>
                    (let dayOfWeek = getDay H h1 newDate
                     in setHours H
                          (setDate H h1 newDate
                             (num_add (getDate H h1 newDate) (num_minus (Some 6) dayOfWeek)))
                          newDate (Some 23) m59 m59 ms999)
                | Day \<Rightarrow> setHours H h1 newDate (Some 23) m59 m59 ms999
                | Hour \<Rightarrow> setMinutes H h1 newDate (Some 59) m59 ms999
                | Minute \<Rightarrow> setSeconds H h1 newDate (Some 59) ms999
                | Second \<Rightarrow> setMilliseconds H h1 newDate (Some 999)
                | Millisecond \<Rightarrow> h1)
      in constructor H h2
           \<lparr>o_date = Some (DateObj newDate), o_dateFormat = p_dateFormat x,
            o_locale = p_locale x\<rparr>)"

definition clone :: "host \<Rightarrow> heap \<Rightarrow> DateFlow \<Rightarrow> (error + DateFlow) \<times> heap" where
  "clone H h x =
     (let (d, h1) = new_Date h (getTime h (p_date x))
      in constructor H h1
           \<lparr>o_date = Some (DateObj d), o_dateFormat = p_dateFormat x, o_locale = p_locale x\<rparr>)"


section \<open>The time value an operation stores\<close>

text \<open>
  Every operation that returns a new instance copies the \<^verbatim>\<open>Date\<close>, changes the copy with
  the setters and passes it to the constructor. The functions below give the time value of
  the copy after the setters; \<open>finish\<close> is the constructor's verdict on it. The lemmas
  \<open>startOf_finish\<close>, \<open>endOf_finish\<close>, \<open>clone_finish\<close> and \<open>modifyDate_finish\<close> relate them
  to the methods.
\<close>

definition finish :: "heap \<Rightarrow> DateFlow \<Rightarrow> tv \<Rightarrow> (error + DateFlow) \<times> heap" where
  "finish h x v =
     (case v of
        None \<Rightarrow> (Inl (Error ''Invalid date provided''), h @ [None])
      | Some t \<Rightarrow>
          (Inr \<lparr>p_date = length h, p_dateFormat = p_dateFormat x, p_locale = p_locale x\<rparr>,
           h @ [Some t]))"

definition startOf_value :: "host \<Rightarrow> tv \<Rightarrow> UnitType \<Rightarrow> tv" where
  "startOf_value H v u =
     (let z = Some (Some 0)
      in case u of
           Year \<Rightarrow> Date_setHours H (Date_setMonth H v (Some 0) (Some (Some 1))) (Some 0) z z z
         | Month \<Rightarrow> Date_setHours H (Date_setDate H v (Some 1)) (Some 0) z z z
         | Week \<Rightarrow>
             Date_setHours H
               (Date_setDate H v
                  (num_minus (local_field H v DateFromTime) (local_field H v WeekDay)))
               (Some 0) z z z
         | Day \<Rightarrow> Date_setHours H v (Some 0) z z z
         | Hour \<Rightarrow> Date_setMinutes H v (Some 0) z z
         | Minute \<Rightarrow> Date_setSeconds H v (Some 0) z
         | Second \<Rightarrow> Date_setMilliseconds H v (Some 0)
         | Millisecond \<Rightarrow> v)"

definition endOf_value :: "host \<Rightarrow> tv \<Rightarrow> UnitType \<Rightarrow> tv" where
  "endOf_value H v u =
     (let m59 = Some (Some 59); ms999 = Some (Some 999)
      in case u of
           Year \<Rightarrow>
             Date_setHours H (Date_setMonth H v (Some 11) (Some (Some 31))) (Some 23) m59 m59 ms999
         | Month \<Rightarrow>
             Date_setHours H
               (Date_setMonth H v (num_plus (local_field H v MonthFromTime) 1) (Some (Some 0)))
               (Some 23) m59 m59 ms999
         | Week \<Rightarrow>
             Date_setHours H
               (Date_setDate H v
                  (num_add (local_field H v DateFromTime)
                     (num_minus (Some 6) (local_field H v WeekDay))))
               (Some 23) m59 m59 ms999
         | Day \<Rightarrow> Date_setHours H v (Some 23) m59 m59 ms999
         | Hour \<Rightarrow> Date_setMinutes H v (Some 59) m59 ms999
         | Minute \<Rightarrow> Date_setSeconds H v (Some 59) ms999
         | Second \<Rightarrow> Date_setMilliseconds H v (Some 999)
         | Millisecond \<Rightarrow> v)"

definition stepped_value :: "host \<Rightarrow> tv \<Rightarrow> int \<Rightarrow> UnitType \<Rightarrow> tv" where
  "stepped_value H v amount u =
     (case u of
        Year \<Rightarrow> Date_setFullYear H v (num_plus (local_field H v YearFromTime) amount) None None
      | Month \<Rightarrow> Date_setMonth H v (num_plus (local_field H v MonthFromTime) amount) None
      | Week \<Rightarrow> Date_setDate H v (num_plus (local_field H v DateFromTime) (amount * 7))
      | Day \<Rightarrow> Date_setDate H v (num_plus (local_field H v DateFromTime) amount)
      | Hour \<Rightarrow> Date_setHours H v (num_plus (local_field H v HourFromTime) amount) None None None
      | Minute \<Rightarrow> Date_setMinutes H v (num_plus (local_field H v MinFromTime) amount) None None
      | Second \<Rightarrow> Date_setSeconds H v (num_plus (local_field H v SecFromTime) amount) None
      | Millisecond \<Rightarrow> Date_setMilliseconds H v (num_plus (local_field H v msFromTime) amount))"

definition dst_corrected :: "host \<Rightarrow> tv \<Rightarrow> tv \<Rightarrow> tv" where
  "dst_corrected H orig v =
     (if strict_eq (tz_offset H orig) (tz_offset H v) then v
      else Date_setMinutes H v
             (dst_minutes (local_field H v MinFromTime) (tz_offset H v) (tz_offset H orig))
             None None)"






text \<open>
  The units that \<open>diff\<close> divides by a fixed number of milliseconds, and the usage example of
  the manual: two instances made from strings, and their difference.
\<close>

definition fixed_length :: "UnitType \<Rightarrow> int option" where
  "fixed_length u =
     (case u of
        Millisecond \<Rightarrow> Some 1 | Second \<Rightarrow> Some 1000 | Minute \<Rightarrow> Some 60000
      | Hour \<Rightarrow> Some 3600000 | Day \<Rightarrow> Some 86400000 | Week \<Rightarrow> Some 604800000
      | Month \<Rightarrow> None | Year \<Rightarrow> None)"

definition diff_of_strings :: "host \<Rightarrow> string \<Rightarrow> string \<Rightarrow> UnitType \<Rightarrow> error + number" where
  "diff_of_strings H a b u =
     (case constructor H [] \<lparr>o_date = Some (Str a), o_dateFormat = None, o_locale = None\<rparr> of
        (Inl e, h1) \<Rightarrow> Inl e
      | (Inr x, h1) \<Rightarrow>
          (case constructor H h1 \<lparr>o_date = Some (Str b), o_dateFormat = None, o_locale = None\<rparr> of
             (Inl e, h2) \<Rightarrow> Inl e
           | (Inr y, h2) \<Rightarrow> Inr (diff H h2 x (AFlow y) u)))"

text \<open>An observer of an instance: \<^verbatim>\<open>valueOf()\<close> and the seven getters agree in two heaps.\<close>

definition unchanged :: "host \<Rightarrow> heap \<Rightarrow> heap \<Rightarrow> DateFlow \<Rightarrow> bool" where
  "unchanged H h h' x =
     (valueOf h' x = valueOf h x \<and> day H h' x = day H h x \<and> month H h' x = month H h x \<and>
      year H h' x = year H h x \<and> hour H h' x = hour H h x \<and> minute H h' x = minute H h x \<and>
      second H h' x = second H h x \<and> millisecond H h' x = millisecond H h x)"

section \<open>An example host\<close>

text \<open>
  A host in the UTC time zone whose parser reads the date-only ISO form \<^verbatim>\<open>YYYY-MM-DD\<close>, which
  ECMAScript takes as midnight UTC.
\<close>

definition digit_of :: "char \<Rightarrow> int option" where
  "digit_of c =
     (let n = int (of_char c) - 48 in if 0 \<le> n \<and> n \<le> 9 then Some n else None)"

fun number_of :: "string \<Rightarrow> int \<Rightarrow> int option" where
  "number_of [] acc = Some acc"
| "number_of (c # cs) acc =
     (case digit_of c of None \<Rightarrow> None | Some d \<Rightarrow> number_of cs (acc * 10 + d))"

definition parse_iso_date :: "string \<Rightarrow> tv" where
  "parse_iso_date s =
     (if length s = 10 \<and> s ! 4 = CHR ''-'' \<and> s ! 7 = CHR ''-'' then
        (case (number_of (take 4 s) 0, number_of (take 2 (drop 5 s)) 0, number_of (drop 8 s) 0) of
           (Some y, Some m, Some d) \<Rightarrow>
             (if 1 \<le> m \<and> m \<le> 12 \<and> 1 \<le> d \<and> d \<le> 31
              then TimeClip (MakeDate (MakeDay y (m - 1) d) 0) else None)
         | _ \<Rightarrow> None)
      else None)"

definition utc_host :: host where
  "utc_host =
     \<lparr>LocalTZA = (\<lambda>t isUTC. 0), clock = 0, Date_parse = parse_iso_date,
      Intl_format = (\<lambda>l opts v. [])\<rparr>"





section \<open>Lemmas\<close>

lemmas heap_defs = new_Date_def getTime_def constructor_def
  setMilliseconds_def setSeconds_def setMinutes_def setHours_def setDate_def setMonth_def
  setFullYear_def getFullYear_def getMonth_def getDate_def getDay_def getHours_def
  getMinutes_def getSeconds_def getMilliseconds_def getTimezoneOffset_def

lemma startOf_finish:
  "startOf H h x u = finish h x (startOf_value H (getTime h (p_date x)) u)"
  by (cases u) (simp_all add: startOf_def startOf_value_def finish_def heap_defs Let_def split: option.splits)

lemma endOf_finish:
  "endOf H h x u = finish h x (endOf_value H (getTime h (p_date x)) u)"
  by (cases u) (simp_all add: endOf_def endOf_value_def finish_def heap_defs Let_def split: option.splits)

lemma clone_finish: "clone H h x = finish h x (getTime h (p_date x))"
  by (simp add: clone_def finish_def heap_defs split: option.splits)

lemma modifyDate_finish:
  assumes "p_date x < length h"
  shows "modifyDate H h x amount u =
     finish h x
       (let v = stepped_value H (getTime h (p_date x)) amount u
        in if p_locale x \<noteq> None then dst_corrected H (getTime h (p_date x)) v else v)"
  using assms
  by (cases u) (simp_all add: modifyDate_def stepped_value_def dst_corrected_def finish_def heap_defs Let_def nth_append split: option.splits)


lemma finish_heap: "snd (finish h x v) = h @ [v]"
  by (simp add: finish_def split: option.splits)

lemma unchanged_append: "p_date x < length h \<Longrightarrow> unchanged H h (h @ [v]) x"
  by (simp add: unchanged_def valueOf_def day_def month_def year_def hour_def minute_def
      second_def millisecond_def getFullYear_def getMonth_def getDate_def getHours_def
      getMinutes_def getSeconds_def getMilliseconds_def getTime_def nth_append)

subsection \<open>The calendar\<close>

lemma div_bounds: fixes a k :: int assumes "0 < k"
  shows "k * (a div k) \<le> a" and "a < k * (a div k) + k"
proof -
  have "a = k * (a div k) + a mod k" by simp
  moreover have "0 \<le> a mod k" "a mod k < k" using assms by simp_all
  ultimately show "k * (a div k) \<le> a" and "a < k * (a div k) + k" by linarith+
qed

lemma div_step: fixes a k :: int assumes "0 < k"
  shows "(a + 1) div k = (if (a + 1) mod k = 0 then a div k + 1 else a div k)"
proof -
  define q r where "q = a div k" and "r = a mod k"
  have a: "a = k * q + r" and r: "0 \<le> r" "r < k"
    using assms by (simp_all add: q_def r_def)
  show ?thesis
  proof (cases "r + 1 = k")
    case True
    then have e: "a + 1 = k * (q + 1) + 0" using a by (simp add: algebra_simps)
    have "(a + 1) div k = q + 1" by (rule int_div_pos_eq [OF e]) (use assms in simp_all)
    moreover have "(a + 1) mod k = 0" by (rule int_mod_pos_eq [OF e]) (use assms in simp_all)
    ultimately show ?thesis by (simp add: q_def)
  next
    case False
    have e: "a + 1 = k * q + (r + 1)" using a by simp
    have "(a + 1) div k = q" by (rule int_div_pos_eq [OF e]) (use r False in simp_all)
    moreover have "(a + 1) mod k = r + 1" by (rule int_mod_pos_eq [OF e]) (use r False in simp_all)
    ultimately show ?thesis using r by (simp add: q_def)
  qed
qed

lemma m4: "((y::int) - 1969 + 1) mod 4 = 0 \<longleftrightarrow> y mod 4 = 0"
proof -
  have "y - 1969 + 1 = y - 4 * 492" by simp
  then show ?thesis by (simp only: mod_eq_0_iff_dvd dvd_diff_left_iff dvd_triv_left)
qed
lemma m100: "((y::int) - 1901 + 1) mod 100 = 0 \<longleftrightarrow> y mod 100 = 0"
proof -
  have "y - 1901 + 1 = y - 100 * 19" by simp
  then show ?thesis by (simp only: mod_eq_0_iff_dvd dvd_diff_left_iff dvd_triv_left)
qed
lemma m400: "((y::int) - 1601 + 1) mod 400 = 0 \<longleftrightarrow> y mod 400 = 0"
proof -
  have "y - 1601 + 1 = y - 400 * 4" by simp
  then show ?thesis by (simp only: mod_eq_0_iff_dvd dvd_diff_left_iff dvd_triv_left)
qed
lemma mod_100_4: "(y::int) mod 100 = 0 \<Longrightarrow> y mod 4 = 0"
proof -
  assume a: "y mod 100 = 0"
  have "y mod 4 = y mod 100 mod 4" by (simp add: mod_mod_cancel)
  then show ?thesis using a by simp
qed
lemma mod_400_100: "(y::int) mod 400 = 0 \<Longrightarrow> y mod 100 = 0"
proof -
  assume a: "y mod 400 = 0"
  have "y mod 100 = y mod 400 mod 100" by (simp add: mod_mod_cancel)
  then show ?thesis using a by simp
qed

lemma DayFromYear_Suc: "DayFromYear (y + 1) = DayFromYear y + DaysInYear y"
proof -
  have a: "(y + 1 - 1969) div 4 = (if y mod 4 = 0 then (y - 1969) div 4 + 1 else (y - 1969) div 4)"
    using div_step [of 4 "y - 1969"] m4 [of y] by (simp add: algebra_simps)
  have b: "(y + 1 - 1901) div 100 = (if y mod 100 = 0 then (y - 1901) div 100 + 1 else (y - 1901) div 100)"
    using div_step [of 100 "y - 1901"] m100 [of y] by (simp add: algebra_simps)
  have c: "(y + 1 - 1601) div 400 = (if y mod 400 = 0 then (y - 1601) div 400 + 1 else (y - 1601) div 400)"
    using div_step [of 400 "y - 1601"] m400 [of y] by (simp add: algebra_simps)
  show ?thesis
    unfolding DayFromYear_def DaysInYear_def a b c
    using mod_100_4 [of y] mod_400_100 [of y] by auto
qed

lemma DayFromYear_lower: "146097 * y - 287811596 \<le> 400 * DayFromYear y"
proof -
  have "4 * ((y - 1969) div 4) \<le> y - 1969" "y - 1901 < 100 * ((y - 1901) div 100) + 100"
    "400 * ((y - 1601) div 400) \<le> y - 1601"
    by (simp_all add: div_bounds)
  then show ?thesis unfolding DayFromYear_def by (simp add: algebra_simps)
qed

lemma DayFromYear_upper: "400 * DayFromYear y \<le> 146097 * y - 287810501"
proof -
  have "y - 1969 < 4 * ((y - 1969) div 4) + 4" "100 * ((y - 1901) div 100) \<le> y - 1901"
    "y - 1601 < 400 * ((y - 1601) div 400) + 400"
    by (simp_all add: div_bounds)
  then show ?thesis unfolding DayFromYear_def by (simp add: algebra_simps)
qed

lemma YearFromDay_bounds:
  "DayFromYear (YearFromDay d) \<le> d \<and> d < DayFromYear (YearFromDay d + 1)"
proof -
  define y where "y = 1970 + (d * 400) div 146097"
  have "146097 * ((d * 400) div 146097) \<le> d * 400"
    "d * 400 < 146097 * ((d * 400) div 146097) + 146097"
    by (simp_all add: div_bounds)
  then have q: "146097 * y - 287811090 \<le> d * 400" "d * 400 < 146097 * y - 287811090 + 146097"
    by (simp_all add: y_def algebra_simps)
  have lo: "DayFromYear (y - 1) \<le> d"
    using DayFromYear_upper [of "y - 1"] q by (simp add: algebra_simps)
  have hi: "d < DayFromYear (y + 2)"
    using DayFromYear_lower [of "y + 2"] q by (simp add: algebra_simps)
  have e: "y + 1 + 1 = y + 2" "y - 1 + 1 = y" by simp_all
  show ?thesis
    unfolding YearFromDay_def Let_def y_def [symmetric]
    using lo hi by (simp add: e)
qed

lemma DayFromYear_mono: "y \<le> z \<Longrightarrow> DayFromYear y \<le> DayFromYear z"
proof -
  assume "y \<le> z"
  then obtain n where z: "z = y + int n" by (metis zle_iff_zadd)
  have "DayFromYear y \<le> DayFromYear (y + int n)"
  proof (induction n)
    case 0 show ?case by simp
  next
    case (Suc n)
    have "DayFromYear (y + int (Suc n)) = DayFromYear (y + int n) + DaysInYear (y + int n)"
      using DayFromYear_Suc [of "y + int n"] by (simp add: add.commute add.left_commute)
    moreover have "0 \<le> DaysInYear (y + int n)" by (simp add: DaysInYear_def)
    ultimately show ?case using Suc by linarith
  qed
  then show ?thesis by (simp add: z)
qed

lemma YearFromDay_unique:
  assumes "DayFromYear y \<le> d" "d < DayFromYear (y + 1)"
  shows "YearFromDay d = y"
proof (rule ccontr)
  assume ne: "YearFromDay d \<noteq> y"
  have b: "DayFromYear (YearFromDay d) \<le> d" "d < DayFromYear (YearFromDay d + 1)"
    using YearFromDay_bounds [of d] by simp_all
  show False
  proof (cases "YearFromDay d < y")
    case True
    then have "DayFromYear (YearFromDay d + 1) \<le> DayFromYear y" by (intro DayFromYear_mono) simp
    then show False using b assms by linarith
  next
    case False
    then have "DayFromYear (y + 1) \<le> DayFromYear (YearFromDay d)" using ne by (intro DayFromYear_mono) simp
    then show False using b assms by linarith
  qed
qed

subsection \<open>Setters on a valid date\<close>

lemmas cal_defs = MakeDate_def MakeDay_def MakeTime_def
  DaysBeforeMonth_def DaysInYear_def DayFromYear_def YearFromTime_def YearFromDay_def
  MonthFromTime_def DateFromTime_def DayWithinYear_def InLeapYear_def DayNumber_def TimeWithinDay_def
  HourFromTime_def MinFromTime_def SecFromTime_def msFromTime_def WeekDay_def
  msPerDay_def msPerHour_def msPerMinute_def msPerSecond_def
lemma local_field_simps:
  "local_field H (Some t) f = Some (f (LocalTime H t))" "local_field H None f = None"
  by (simp_all add: local_field_def)

lemma from_local_Some: "from_local H (Some d) (Some t) = TimeClip (UTC H (MakeDate d t))"
  by (simp add: from_local_def)

lemma setter_None:
  "Date_setMilliseconds H None a = None" "Date_setSeconds H None a b = None"
  "Date_setMinutes H None a b c = None" "Date_setHours H None a b c d = None"
  "Date_setDate H None a = None" "Date_setMonth H None a b = None"
  by (simp_all add: Date_setMilliseconds_def Date_setSeconds_def Date_setMinutes_def
      Date_setHours_def Date_setDate_def Date_setMonth_def)

lemma setter_NaN:
  "Date_setMinutes H v None b c = None" "Date_setDate H v None = None"
  by (simp_all add: Date_setMinutes_def Date_setDate_def from_local_def MakeTime_num_def
      MakeDay_num_def Let_def split: option.splits)

lemma Date_setMilliseconds_Some:
  "Date_setMilliseconds H (Some t) (Some ms) =
     TimeClip (UTC H (MakeDate (DayNumber (LocalTime H t))
       (MakeTime (HourFromTime (LocalTime H t)) (MinFromTime (LocalTime H t))
          (SecFromTime (LocalTime H t)) ms)))"
  by (simp add: Date_setMilliseconds_def from_local_def MakeTime_num_def Let_def)

lemma Date_setSeconds_Some:
  "Date_setSeconds H (Some t) (Some s) None =
     TimeClip (UTC H (MakeDate (DayNumber (LocalTime H t))
       (MakeTime (HourFromTime (LocalTime H t)) (MinFromTime (LocalTime H t)) s
          (msFromTime (LocalTime H t)))))"
  "Date_setSeconds H (Some t) (Some s) (Some (Some ms)) =
     TimeClip (UTC H (MakeDate (DayNumber (LocalTime H t))
       (MakeTime (HourFromTime (LocalTime H t)) (MinFromTime (LocalTime H t)) s ms)))"
  by (simp_all add: Date_setSeconds_def from_local_def MakeTime_num_def arg_or_def Let_def)

lemma Date_setMinutes_Some:
  "Date_setMinutes H (Some t) (Some m) None None =
     TimeClip (UTC H (MakeDate (DayNumber (LocalTime H t))
       (MakeTime (HourFromTime (LocalTime H t)) m (SecFromTime (LocalTime H t))
          (msFromTime (LocalTime H t)))))"
  "Date_setMinutes H (Some t) (Some m) (Some (Some s)) (Some (Some ms)) =
     TimeClip (UTC H (MakeDate (DayNumber (LocalTime H t))
       (MakeTime (HourFromTime (LocalTime H t)) m s ms)))"
  by (simp_all add: Date_setMinutes_def from_local_def MakeTime_num_def arg_or_def Let_def)

lemma Date_setHours_Some:
  "Date_setHours H (Some t) (Some hr) None None None =
     TimeClip (UTC H (MakeDate (DayNumber (LocalTime H t))
       (MakeTime hr (MinFromTime (LocalTime H t)) (SecFromTime (LocalTime H t))
          (msFromTime (LocalTime H t)))))"
  "Date_setHours H (Some t) (Some hr) (Some (Some m)) (Some (Some s)) (Some (Some ms)) =
     TimeClip (UTC H (MakeDate (DayNumber (LocalTime H t)) (MakeTime hr m s ms)))"
  by (simp_all add: Date_setHours_def from_local_def MakeTime_num_def arg_or_def Let_def)

lemma Date_setDate_Some:
  "Date_setDate H (Some t) (Some dt) =
     TimeClip (UTC H (MakeDate
       (MakeDay (YearFromTime (LocalTime H t)) (MonthFromTime (LocalTime H t)) dt)
       (TimeWithinDay (LocalTime H t))))"
  by (simp add: Date_setDate_def from_local_def MakeDay_num_def Let_def)

lemma Date_setMonth_Some:
  "Date_setMonth H (Some t) (Some mo) None =
     TimeClip (UTC H (MakeDate
       (MakeDay (YearFromTime (LocalTime H t)) mo (DateFromTime (LocalTime H t)))
       (TimeWithinDay (LocalTime H t))))"
  "Date_setMonth H (Some t) (Some mo) (Some (Some dt)) =
     TimeClip (UTC H (MakeDate (MakeDay (YearFromTime (LocalTime H t)) mo dt)
       (TimeWithinDay (LocalTime H t))))"
  by (simp_all add: Date_setMonth_def from_local_def MakeDay_num_def arg_or_def Let_def)

lemma Date_setFullYear_Some:
  "Date_setFullYear H (Some t) (Some yr) None None =
     TimeClip (UTC H (MakeDate
       (MakeDay yr (MonthFromTime (LocalTime H t)) (DateFromTime (LocalTime H t)))
       (TimeWithinDay (LocalTime H t))))"
  by (simp add: Date_setFullYear_def from_local_def MakeDay_num_def arg_or_def Let_def)

lemmas setter_simps = local_field_simps setter_None setter_NaN Date_setMilliseconds_Some
  Date_setSeconds_Some Date_setMinutes_Some Date_setHours_Some Date_setDate_Some
  Date_setMonth_Some Date_setFullYear_Some

lemmas num_defs = num_plus_def num_minus_def num_add_def strict_eq_def num_less_def



lemmas eval_simps = setter_simps num_defs TimeClip_def maxTime_def cal_defs

subsection \<open>Evaluation and the examples\<close>

lemma utc_simps: "LocalTime utc_host t = t" "UTC utc_host t = t"
  by (simp_all add: LocalTime_def UTC_def utc_host_def)

lemma replicate_small: "replicate 2 c = [c, c]" "replicate 3 c = [c, c, c]"
  by (simp_all add: numeral_2_eq_2 numeral_3_eq_3)



lemma parse_examples:
  "parse_iso_date ''2024-04-05'' = Some 1712275200000"
  "parse_iso_date ''2024-02-10'' = Some 1707523200000"
  "parse_iso_date ''2024-02-29'' = Some 1709164800000"
  "parse_iso_date ''2024-01-31'' = Some 1706659200000"
  by (simp_all add: parse_iso_date_def digit_of_def eval_simps)

lemma diff_of_strings_eval:
  assumes "Date_parse H a = Some ta" "Date_parse H b = Some tb"
  shows "diff_of_strings H a b u =
     Inr (diff H [Some ta, Some tb] \<lparr>p_date = 0, p_dateFormat = None, p_locale = None\<rparr>
       (AFlow \<lparr>p_date = 1, p_dateFormat = None, p_locale = None\<rparr>) u)"
  using assms by (simp add: diff_of_strings_def constructor_def new_Date_def getTime_def)

lemma fields_by_day:
  assumes "DayNumber t = DayNumber s"
  shows "YearFromTime t = YearFromTime s" "MonthFromTime t = MonthFromTime s"
    "DateFromTime t = DateFromTime s" "WeekDay t = WeekDay s"
  using assms
  by (simp_all add: YearFromTime_def MonthFromTime_def DateFromTime_def DayWithinYear_def
      InLeapYear_def WeekDay_def)

lemma day_shift:
  assumes "\<bar>d\<bar> < msPerDay"
  shows "DayNumber (n * msPerDay + d) = n \<or> DayNumber (n * msPerDay + d) = n - 1"
proof (cases "0 \<le> d")
  case True
  then have "(n * msPerDay + d) div msPerDay = n"
    using assms by (intro int_div_pos_eq [where r = d]) (simp_all add: msPerDay_def)
  then show ?thesis by (simp add: DayNumber_def)
next
  case False
  then have "(n * msPerDay + d) div msPerDay = n - 1"
    using assms by (intro int_div_pos_eq [where r = "d + msPerDay"]) (simp_all add: msPerDay_def algebra_simps)
  then show ?thesis by (simp add: DayNumber_def)
qed

lemma DayNumber_mult: "DayNumber (n * msPerDay) = n"
  by (simp add: DayNumber_def msPerDay_def)

lemma year_month_near:
  assumes "\<bar>d\<bar> < msPerDay"
    and "YearFromTime (n * msPerDay) = yr" "MonthFromTime (n * msPerDay) = mo"
    and "YearFromTime ((n - 1) * msPerDay) = yr" "MonthFromTime ((n - 1) * msPerDay) = mo"
  shows "YearFromTime (n * msPerDay + d) = yr \<and> MonthFromTime (n * msPerDay + d) = mo"
proof -
  from day_shift [OF assms(1), of n]
  have "DayNumber (n * msPerDay + d) = DayNumber (n * msPerDay) \<or>
        DayNumber (n * msPerDay + d) = DayNumber ((n - 1) * msPerDay)"
    by (simp only: DayNumber_mult)
  then show ?thesis
  proof
    assume e: "DayNumber (n * msPerDay + d) = DayNumber (n * msPerDay)"
    show ?thesis
      by (simp only: fields_by_day(1) [OF e] fields_by_day(2) [OF e] assms(2,3))
  next
    assume e: "DayNumber (n * msPerDay + d) = DayNumber ((n - 1) * msPerDay)"
    show ?thesis
      by (simp only: fields_by_day(1) [OF e] fields_by_day(2) [OF e] assms(4,5))
  qed
qed

lemma feb29_jan31:
  assumes "\<bar>a\<bar> < msPerDay" "\<bar>b\<bar> < msPerDay"
  shows "YearFromTime (1709164800000 + a) = 2024 \<and> MonthFromTime (1709164800000 + a) = 1"
    "YearFromTime (1706659200000 + b) = 2024 \<and> MonthFromTime (1706659200000 + b) = 0"
proof -
  have e: "(1709164800000::int) = 19782 * msPerDay" "(1706659200000::int) = 19753 * msPerDay"
    by (simp_all add: msPerDay_def)
  have y: "YearFromTime (19782 * msPerDay) = 2024" "YearFromTime ((19782 - 1) * msPerDay) = 2024"
    "YearFromTime (19753 * msPerDay) = 2024" "YearFromTime ((19753 - 1) * msPerDay) = 2024"
    by (simp_all add: cal_defs)
  have m: "MonthFromTime (19782 * msPerDay) = 1" "MonthFromTime ((19782 - 1) * msPerDay) = 1"
    "MonthFromTime (19753 * msPerDay) = 0" "MonthFromTime ((19753 - 1) * msPerDay) = 0"
    by (simp_all add: cal_defs)
  show "YearFromTime (1709164800000 + a) = 2024 \<and> MonthFromTime (1709164800000 + a) = 1"
    unfolding e by (rule year_month_near [OF assms(1) y(1) m(1) y(2) m(2)])
  show "YearFromTime (1706659200000 + b) = 2024 \<and> MonthFromTime (1706659200000 + b) = 0"
    unfolding e by (rule year_month_near [OF assms(2) y(3) m(3) y(4) m(4)])
qed

subsection \<open>Rounding, and the operations on a valid instance\<close>

lemma ulp_of_small: "n < 2 ^ 53 \<Longrightarrow> ulp_of n = 1"
  by (simp add: ulp_of.simps)

lemma double_of_int_exact:
  assumes "\<bar>d\<bar> \<le> 2 ^ 53"
  shows "double_of_int d = d"
proof (cases "\<bar>d\<bar> < 2 ^ 53")
  case True
  then have "nat \<bar>d\<bar> < 2 ^ 53" by simp
  then have "ulp_of (nat \<bar>d\<bar>) = 1" by (rule ulp_of_small)
  then show ?thesis by (simp add: double_of_int_def)
next
  case False
  then have a: "\<bar>d\<bar> = 9007199254740992" using assms by simp
  have u: "ulp_of (nat 9007199254740992) = 2"
    by (simp add: ulp_of.simps)
  from a have "d = 9007199254740992 \<or> d = - 9007199254740992" by linarith
  then show ?thesis
    using u a by (auto simp add: double_of_int_def)
qed

lemma double_minus_Some: "double_minus (Some a) (Some b) = Some (double_of_int (a - b))"
  by (simp add: double_minus_def num_minus_def)

lemma normalise_small:
  "0 < n \<Longrightarrow> 0 < d \<Longrightarrow> n < 2 ^ 53 * d \<Longrightarrow>
   \<exists>S. 0 < S \<and> normalise n d = (n * S, d) \<and> 2 ^ 52 * d \<le> n * S"
proof (induction n d rule: normalise.induct)
  case (1 n d)
  show ?case
  proof (cases "n < 2 ^ 52 * d")
    case True
    then have "2 * n < 2 ^ 53 * d" by simp
    with 1 True obtain S where S: "0 < S" "normalise (2 * n) d = (2 * n * S, d)"
      "2 ^ 52 * d \<le> 2 * n * S"
      by fastforce
    have "normalise n d = normalise (2 * n) d"
      using 1(3,4) True by (subst normalise.simps) simp
    then show ?thesis
      using S by (intro exI [of _ "2 * S"]) (simp add: mult.assoc mult.left_commute)
  next
    case False
    then have "normalise n d = (n, d)"
      using 1(3,4,5) by (subst normalise.simps) simp
    then show ?thesis using False by (intro exI [of _ 1]) simp
  qed
qed

lemma round_magnitude:
  fixes a k p S :: int
  assumes k: "0 < k" and p: "0 < p" and S: "0 < S" and a: "0 < a"
    and pa: "p dvd a" and pk: "p dvd k" and ab: "a < p * 2 ^ 53"
    and lo: "2 ^ 52 * k \<le> a * S"
  shows "k dvd a \<Longrightarrow> round_half_even (a * S) k = (a div k) * S"
    and "\<not> k dvd a \<Longrightarrow> (a div k) * S < round_half_even (a * S) k \<and>
         round_half_even (a * S) k < (a div k) * S + S"
proof -
  define N where "N = a div k"
  define rho where "rho = a mod k"
  have an: "a = N * k + rho" by (simp add: N_def rho_def)
  have rb: "0 \<le> rho" "rho < k" using k by (simp_all add: rho_def)
  have n: "a * S = (N * S) * k + rho * S" by (simp add: an algebra_simps)
  have q: "(a * S) div k = N * S + (rho * S) div k"
    using k by (simp add: n)
  have r: "(a * S) mod k = (rho * S) mod k"
    by (simp add: n)
  {
    assume "k dvd a"
    then have "rho = 0" by (simp add: rho_def)
    then have "(a * S) div k = N * S" "(a * S) mod k = 0" using q r by simp_all
    then show "round_half_even (a * S) k = (a div k) * S"
      using k by (simp add: round_half_even_def N_def)
  }
  {
    assume nd: "\<not> k dvd a"
    then have r0: "rho \<noteq> 0" by (simp add: rho_def dvd_eq_mod_eq_0)
    have pr: "p dvd rho" unfolding rho_def using pa pk by (simp add: dvd_mod)
    have "p dvd k - rho" using pr pk by simp
    moreover have "0 < k - rho" using rb by simp
    ultimately have kr: "p \<le> k - rho" by (rule zdvd_imp_le)
    have "0 < rho" using r0 rb by simp
    with pr have rp: "p \<le> rho" by (intro zdvd_imp_le)
    have e: "(p * 2 ^ 53) * S = 2 ^ 52 * (2 * p * S)" by simp
    have "a * S < (p * 2 ^ 53) * S" using ab S by (rule mult_strict_right_mono)
    with lo have "2 ^ 52 * k < (p * 2 ^ 53) * S" by (rule le_less_trans)
    then have "(2 ^ 52 :: int) * k < 2 ^ 52 * (2 * p * S)" by (simp only: e)
    then have f1: "k < 2 * p * S" by (simp only: mult_less_cancel_left_pos zero_less_power zero_less_numeral)
    have pS: "p * S \<le> rho * S" "p * S \<le> (k - rho) * S"
      using rp kr S by simp_all
    define t where "t = rho * S"
    have tb: "0 \<le> t" "t < k * S" using rb S \<open>0 < rho\<close> by (simp_all add: t_def)
    have tl: "k < 2 * t" using f1 pS(1) by (simp add: t_def)
    have tu: "2 * t < 2 * (k * S) - k" using f1 pS(2) by (simp add: t_def algebra_simps)
    define q' where "q' = t div k"
    define r' where "r' = t mod k"
    have tq: "t = q' * k + r'" by (simp add: q'_def r'_def)
    have r'b: "0 \<le> r'" "r' < k" using k by (simp_all add: r'_def)
    have q'0: "0 \<le> q'" using tb k by (simp add: q'_def pos_imp_zdiv_nonneg_iff)
    have q'S: "q' < S"
    proof -
      have "k * q' \<le> t" using r'b(1) tq by (simp add: mult.commute)
      with tb(2) have "k * q' < k * S" by simp
      then show ?thesis using k by (simp only: mult_less_cancel_left_pos)
    qed
    have Q: "(a * S) div k = N * S + q'" "(a * S) mod k = r'"
      using q r by (simp_all add: q'_def r'_def t_def)
    have lower: "N * S < round_half_even (a * S) k"
    proof (cases "q' = 0")
      case True
      then have "r' = t" using tq by simp
      then have "k < 2 * r'" using tl by simp
      then show ?thesis using Q True by (simp add: round_half_even_def)
    next
      case False
      then have "0 < q'" using q'0 by simp
      then show ?thesis using Q by (simp add: round_half_even_def Let_def)
    qed
    have upper: "round_half_even (a * S) k < N * S + S"
    proof (cases "q' = S - 1")
      case True
      then have "r' = t - (S - 1) * k" using tq by simp
      then have "2 * r' < k" using tu by (simp add: algebra_simps)
      then show ?thesis using Q True by (simp add: round_half_even_def)
    next
      case False
      then have "q' + 1 < S" using q'S by simp
      then show ?thesis using Q by (simp add: round_half_even_def Let_def)
    qed
    show "(a div k) * S < round_half_even (a * S) k \<and>
         round_half_even (a * S) k < (a div k) * S + S"
      using lower upper by (simp add: N_def)
  }
qed

lemma floor_double_quot:
  assumes k: "0 < k" and p: "0 < p" and pi: "p dvd i" and pk: "p dvd k"
    and ib: "\<bar>i\<bar> < p * 2 ^ 53"
  shows "\<lfloor>double_quot i k\<rfloor> = i div k"
proof (cases "i = 0")
  case True
  then show ?thesis by (simp add: double_quot_def)
next
  case False
  define a where "a = \<bar>i\<bar>"
  have a: "0 < a" using False by (simp add: a_def)
  have pa: "p dvd a" using pi by (simp add: a_def)
  have ab: "a < p * 2 ^ 53" using ib by (simp add: a_def)
  have "p \<le> k" using pk k by (rule zdvd_imp_le)
  then have "p * 2 ^ 53 \<le> k * 2 ^ 53" by simp
  with ab have "a < 2 ^ 53 * k" by (simp add: mult.commute)
  from normalise_small [OF a k this] obtain S where
    S: "0 < S" "normalise a k = (a * S, k)" "2 ^ 52 * k \<le> a * S"
    by blast
  define m where "m = round_half_even (a * S) k"
  note rm = round_magnitude [OF k p S(1) a pa pk ab S(3), folded m_def]
  have "double_quot i k = of_int (sgn i * m * k * a) / of_int (k * (a * S))"
    using False S(2) by (simp add: double_quot_def a_def [symmetric] m_def)
  also have "\<dots> = of_int ((sgn i * m) * (k * a)) / of_int (S * (k * a))"
    by (simp add: mult_ac)
  also have "\<dots> = of_int (sgn i * m) / of_int S"
    using k a by simp
  finally have "\<lfloor>double_quot i k\<rfloor> = (sgn i * m) div S"
    by (simp only: floor_divide_of_int_eq)
  moreover have "(sgn i * m) div S = i div k"
  proof (cases "k dvd a")
    case True
    then have m: "m = (a div k) * S" by (rule rm(1))
    have "i = sgn i * a" by (simp add: a_def mult_sgn_abs)
    then have "i div k = (sgn i * a) div k" by simp
    also have "\<dots> = sgn i * (a div k)" using True by (simp add: div_mult_swap)
    finally show ?thesis using S(1) by (simp add: m)
  next
    case nd: False
    then have b: "(a div k) * S < m" "m < (a div k) * S + S" using rm(2) by simp_all
    define N where "N = a div k"
    have "0 \<le> a mod k" using k by simp
    moreover have "a mod k \<noteq> 0" using nd by (simp add: dvd_eq_mod_eq_0)
    ultimately have "0 < a mod k" by linarith
    moreover have "a mod k < k" using k by simp
    ultimately have rho: "0 < a mod k" "a mod k < k" by blast+
    have an: "a = k * N + a mod k" by (simp add: N_def)
    have sa: "sgn a = 1" using a by simp
    show ?thesis
    proof (cases "0 < i")
      case True
      then have i: "i = a" "sgn i = 1" by (simp_all add: a_def)
      have "m div S = N"
        by (rule int_div_pos_eq [where r = "m - N * S"]) (use b in \<open>simp_all add: N_def\<close>)
      then show ?thesis by (simp add: i sa N_def)
    next
      case False
      then have i: "i = - a" "sgn i = - 1" using \<open>i \<noteq> 0\<close> by (simp_all add: a_def)
      have 1: "(- m) div S = - N - 1"
        by (rule int_div_pos_eq [where r = "N * S + S - m"])
          (use b in \<open>simp_all add: N_def algebra_simps\<close>)
      have 2: "(- a) div k = - N - 1"
        by (rule int_div_pos_eq [where r = "k - a mod k"])
          (use rho an in \<open>simp_all add: algebra_simps\<close>)
      show ?thesis by (simp add: i sa 1 2)
    qed
  qed
  ultimately show ?thesis by simp
qed

lemma ulp_of_two: "2 ^ 53 \<le> n \<Longrightarrow> n < 2 ^ 54 \<Longrightarrow> ulp_of n = 2"
  by (subst ulp_of.simps) (simp add: ulp_of_small)

lemma double_of_int_grid:
  assumes "\<bar>d\<bar> \<le> 17280000000000000"
  shows "\<exists>p. (p = 1 \<or> p = 2) \<and> p dvd double_of_int d \<and> \<bar>double_of_int d\<bar> < p * 2 ^ 53"
proof (cases "\<bar>d\<bar> < 2 ^ 53")
  case True
  then have "double_of_int d = d" by (simp add: double_of_int_exact)
  then show ?thesis using True by (intro exI [of _ 1]) simp
next
  case False
  then have "2 ^ 53 \<le> nat \<bar>d\<bar>" "nat \<bar>d\<bar> < 2 ^ 54" using assms by simp_all
  then have u: "ulp_of (nat \<bar>d\<bar>) = 2" by (rule ulp_of_two)
  define q where "q = d div 2"
  define r where "r = d mod 2"
  have d: "d = 2 * q + r" by (simp add: q_def r_def)
  have r: "r = 0 \<or> r = 1" unfolding r_def by presburger
  have e: "double_of_int d = 2 * q \<or> double_of_int d = 2 * (q + 1) \<and> r = 1"
    using r by (auto simp add: double_of_int_def u q_def [symmetric] r_def [symmetric] Let_def)
  have l: "- 17280000000000000 \<le> 2 * q + r" and h: "2 * q + r \<le> 17280000000000000"
    using assms d by linarith+
  have b1: "\<bar>2 * q\<bar> \<le> 17280000000000000"
  proof -
    have "- 8640000000000000 - 1 < q" using r l by linarith
    then have "- 8640000000000000 \<le> q" by linarith
    then have "- 17280000000000000 \<le> 2 * q" by linarith
    moreover have "2 * q \<le> 17280000000000000" using r h by linarith
    ultimately show ?thesis by linarith
  qed
  have b2: "\<bar>2 * (q + 1)\<bar> \<le> 17280000000000000" if "r = 1"
  proof -
    have "2 * q < 2 * 8640000000000000" using h that by linarith
    then have "q + 1 \<le> 8640000000000000" by simp
    then have "2 * (q + 1) \<le> 17280000000000000" by simp
    moreover have "- 17280000000000000 \<le> 2 * (q + 1)" using l that by simp
    ultimately show ?thesis by linarith
  qed
  note b = b1 b2
  show ?thesis
    using e b by (intro exI [of _ 2]) auto
qed

lemma floor_div_valid:
  assumes "\<bar>tx\<bar> \<le> maxTime" and "\<bar>ty\<bar> \<le> maxTime" and "0 < k" and "even k"
  shows "floor_div (double_minus (Some tx) (Some ty)) k = Some (double_of_int (tx - ty) div k)"
proof -
  have "\<bar>tx - ty\<bar> \<le> 17280000000000000" using assms(1,2) by (simp add: maxTime_def)
  from double_of_int_grid [OF this] obtain p where
    p: "p = 1 \<or> p = 2" "p dvd double_of_int (tx - ty)" "\<bar>double_of_int (tx - ty)\<bar> < p * 2 ^ 53"
    by blast
  have "0 < p" "p dvd k" using p(1) assms(4) by auto
  then have "\<lfloor>double_quot (double_of_int (tx - ty)) k\<rfloor> = double_of_int (tx - ty) div k"
    using assms(3) p(2,3) by (intro floor_double_quot [where p = p])
  then show ?thesis by (simp add: floor_div_def double_minus_Some)
qed










section \<open>Claims\<close>

text \<open>
  C1. Immutability: for every instance \<open>x\<close> (a reference to an allocated \<^verbatim>\<open>Date\<close>) and each
  of \<open>add\<close>, \<open>subtract\<close>, \<open>startOf\<close>, \<open>endOf\<close>, \<open>clone\<close>, the heap after the call gives \<open>x\<close> the
  same \<open>valueOf()\<close> and the same seven getter values as the heap before it.
\<close>

theorem C1_immutability:
  assumes "p_date x < length h"
  shows "unchanged H h (snd (add H h x amount u)) x \<and>
         unchanged H h (snd (subtract H h x amount u)) x \<and>
         unchanged H h (snd (startOf H h x u)) x \<and>
         unchanged H h (snd (endOf H h x u)) x \<and>
         unchanged H h (snd (clone H h x)) x"
  using assms
  by (simp add: add_def subtract_def modifyDate_finish startOf_finish endOf_finish clone_finish
      finish_heap unchanged_append)

theorem C1_immutability_witness:
  "unchanged utc_host [Some 1712275200123]
     (snd (add utc_host [Some 1712275200123]
        \<lparr>p_date = 0, p_dateFormat = None, p_locale = Some it_IT\<rparr> 1 Month))
     \<lparr>p_date = 0, p_dateFormat = None, p_locale = Some it_IT\<rparr> \<and>
   snd (add utc_host [Some 1712275200123]
        \<lparr>p_date = 0, p_dateFormat = None, p_locale = Some it_IT\<rparr> 1 Month) \<noteq>
     [Some 1712275200123]"
  using C1_immutability [of "\<lparr>p_date = 0, p_dateFormat = None, p_locale = Some it_IT\<rparr>"
      "[Some 1712275200123]" utc_host 1 Month]
  by (simp add: add_def modifyDate_finish finish_heap)











text \<open>
  C4, as the claim states it, fails: the difference of two time values is a double, and the
  two valid instants 8640000000000000 and -8639999999999999 are 17279999999999999 apart, which
  is above \<open>2 ^ 53\<close> and rounds to 17280000000000000. In seconds the code returns
  17280000000000; the floor of the raw difference over 1000 is 17279999999999.
\<close>

theorem C4_counterexample:
  "valueOf [Some 8640000000000000, Some (- 8639999999999999)]
     \<lparr>p_date = 0, p_dateFormat = None, p_locale = None\<rparr> = Some 8640000000000000 \<and>
   valueOf [Some 8640000000000000, Some (- 8639999999999999)]
     \<lparr>p_date = 1, p_dateFormat = None, p_locale = None\<rparr> = Some (- 8639999999999999) \<and>
   diff utc_host [Some 8640000000000000, Some (- 8639999999999999)]
     \<lparr>p_date = 0, p_dateFormat = None, p_locale = None\<rparr>
     (AFlow \<lparr>p_date = 1, p_dateFormat = None, p_locale = None\<rparr>) Second = Some 17280000000000 \<and>
   \<lfloor>(8640000000000000 - (- 8639999999999999) :: rat) / 1000\<rfloor> = 17279999999999"
proof -
  have d: "double_of_int 17279999999999999 = 17280000000000000"
    by (simp add: double_of_int_def ulp_of.simps)
  have "floor_div (double_minus (Some 8640000000000000) (Some (- 8639999999999999))) 1000 =
      Some (double_of_int (8640000000000000 - (- 8639999999999999)) div 1000)"
    by (rule floor_div_valid) (simp_all add: maxTime_def)
  then have q: "floor_div (double_minus (Some 8640000000000000) (Some (- 8639999999999999))) 1000 =
      Some 17280000000000"
    by (simp add: d)
  have f: "\<lfloor>(17279999999999999 :: rat) / 1000\<rfloor> = 17279999999999"
    using floor_divide_of_int_eq [of 17279999999999999 1000, where ?'a = rat] by simp
  show ?thesis
    using f q by (simp add: diff_def valueOf_def getTime_def)
qed


text \<open>
  C4, amended. For instances \<open>x\<close>, \<open>y\<close> with instants \<open>tx\<close>, \<open>ty\<close> (time values, so at most
  8.64e15 in size) and a unit of fixed length \<open>k\<close> (1, 1000, 60000, 3600000, 86400000,
  604800000 milliseconds), \<open>x.diff(y, u)\<close> is the floor of \<open>d / k\<close> where \<open>d\<close> is \<open>tx - ty\<close>
  rounded to the nearest double. When the two instants are at most \<open>2 ^ 53\<close> milliseconds
  apart (some 285 thousand years), \<open>d\<close> is \<open>tx - ty\<close> itself and the result is the floor of
  \<open>(tx - ty) / k\<close>: the integer \<open>q\<close> with \<open>k * q \<le> tx - ty < k * q + k\<close>. The difference of
  2024-04-05 and 2024-02-10 in days is 55.
\<close>

theorem C4_diff_fixed_units:
  assumes "getTime h (p_date x) = Some tx" and "getTime h (p_date y) = Some ty"
    and "\<bar>tx\<bar> \<le> maxTime" and "\<bar>ty\<bar> \<le> maxTime"
    and "fixed_length u = Some k"
  shows "diff H h x (AFlow y) u = Some (double_of_int (tx - ty) div k) \<and>
         (\<bar>tx - ty\<bar> \<le> 2 ^ 53 \<longrightarrow>
            diff H h x (AFlow y) u = Some ((tx - ty) div k) \<and>
            k * ((tx - ty) div k) \<le> tx - ty \<and> tx - ty < k * ((tx - ty) div k) + k) \<and>
         diff_of_strings (H\<lparr>Date_parse := parse_iso_date\<rparr>) ''2024-04-05'' ''2024-02-10'' Day =
           Inr (Some 55)"
proof -
  have k: "0 < k" using assms(5) by (cases u) (simp_all add: fixed_length_def)
  have f: "floor_div (double_minus (Some tx) (Some ty)) j = Some (double_of_int (tx - ty) div j)"
    if "0 < j" "even j" for j
    using assms(3,4) that by (rule floor_div_valid)
  have 1: "diff H h x (AFlow y) u = Some (double_of_int (tx - ty) div k)"
    using assms(1,2,5)
    by (cases u) (simp_all add: diff_def fixed_length_def f, simp add: double_minus_Some)
  have 2: "k * ((tx - ty) div k) \<le> tx - ty" "tx - ty < k * ((tx - ty) div k) + k"
    using k by (simp_all add: div_bounds)
  have e: "double_of_int 4752000000 = 4752000000"
    by (rule double_of_int_exact) simp
  have "floor_div (double_minus (Some 1712275200000) (Some 1707523200000)) (1000 * 60 * 60 * 24) =
      Some (double_of_int (1712275200000 - 1707523200000) div (1000 * 60 * 60 * 24))"
    by (rule floor_div_valid) (simp_all add: maxTime_def)
  then have 3: "diff_of_strings (H\<lparr>Date_parse := parse_iso_date\<rparr>) ''2024-04-05'' ''2024-02-10'' Day =
           Inr (Some 55)"
    by (simp add: diff_of_strings_eval [where ta = 1712275200000 and tb = 1707523200000]
        parse_examples diff_def getTime_def e)
  show ?thesis using 1 2 3 by (simp add: double_of_int_exact)
qed

theorem C4_diff_fixed_units_witness:
  "diff utc_host [Some 0, Some 1] \<lparr>p_date = 0, p_dateFormat = None, p_locale = None\<rparr>
     (AFlow \<lparr>p_date = 1, p_dateFormat = None, p_locale = None\<rparr>) Second = Some (- 1)"
  using C4_diff_fixed_units [of "[Some 0, Some 1]" "\<lparr>p_date = 0, p_dateFormat = None, p_locale = None\<rparr>" 0
      "\<lparr>p_date = 1, p_dateFormat = None, p_locale = None\<rparr>" 1 Second 1000 utc_host]
  by (simp add: getTime_def fixed_length_def double_of_int_exact maxTime_def)


text \<open>
  C5. \<open>x.diff(y, 'month')\<close> is \<open>(yx - yy) * 12 + (mx0 - my0)\<close> and \<open>x.diff(y, 'year')\<close> is
  \<open>yx - yy\<close>, with \<open>yx\<close>, \<open>yy\<close> the local calendar years and \<open>mx0\<close>, \<open>my0\<close> the 0-based local
  months (the getter \<open>month\<close> minus one); nothing else of the two instants enters. In every
  system time zone whose offset is less than a day, the difference of 2024-02-29 and
  2024-01-31 in months is 1.
\<close>

theorem C5_diff_month_year:
  assumes "year H h x = Some yx" and "month H h x = Some mx"
    and "year H h y = Some yy" and "month H h y = Some my"
  shows "diff H h x (AFlow y) Month = Some ((yx - yy) * 12 + ((mx - 1) - (my - 1))) \<and>
         diff H h x (AFlow y) Year = Some (yx - yy) \<and>
         ((\<forall>t. \<bar>LocalTZA H t True\<bar> < msPerDay) \<longrightarrow>
            diff_of_strings (H\<lparr>Date_parse := parse_iso_date\<rparr>) ''2024-02-29'' ''2024-01-31'' Month =
              Inr (Some 1))"
proof -
  have 1: "diff H h x (AFlow y) Month = Some ((yx - yy) * 12 + ((mx - 1) - (my - 1)))"
    using assms
    by (auto simp add: diff_def year_def month_def num_minus_def num_plus_def Let_def)
  have 2: "diff H h x (AFlow y) Year = Some (yx - yy)"
    using assms by (simp add: diff_def year_def num_minus_def)
  have 3: "diff_of_strings (H\<lparr>Date_parse := parse_iso_date\<rparr>) ''2024-02-29'' ''2024-01-31'' Month =
              Inr (Some 1)" if b: "\<forall>t. \<bar>LocalTZA H t True\<bar> < msPerDay"
  proof -
    have a: "\<bar>LocalTZA H 1709164800000 True\<bar> < msPerDay" "\<bar>LocalTZA H 1706659200000 True\<bar> < msPerDay"
      using b by simp_all
    show ?thesis
      using feb29_jan31 [OF a]
      by (simp add: diff_of_strings_eval [where ta = 1709164800000 and tb = 1706659200000]
          parse_examples diff_def getTime_def num_minus_def getFullYear_def getMonth_def
          local_field_simps LocalTime_def)
  qed
  show ?thesis using 1 2 3 by simp
qed


theorem C5_diff_month_year_witness:
  "diff utc_host [Some 1709164800000, Some 1706659200000]
     \<lparr>p_date = 0, p_dateFormat = None, p_locale = None\<rparr>
     (AFlow \<lparr>p_date = 1, p_dateFormat = None, p_locale = None\<rparr>) Month = Some 1 \<and>
   diff_of_strings (utc_host\<lparr>Date_parse := parse_iso_date\<rparr>) ''2024-02-29'' ''2024-01-31'' Month =
     Inr (Some 1)"
proof -
  have f: "YearFromTime 1709164800000 = 2024" "MonthFromTime 1709164800000 = 1"
    "YearFromTime 1706659200000 = 2024" "MonthFromTime 1706659200000 = 0"
    by (simp_all add: cal_defs)
  have z: "\<forall>t. \<bar>LocalTZA utc_host t True\<bar> < msPerDay"
    by (simp add: utc_host_def msPerDay_def)
  show ?thesis
    using C5_diff_month_year [where H = utc_host
        and h = "[Some 1709164800000, Some 1706659200000]"
        and x = "\<lparr>p_date = 0, p_dateFormat = None, p_locale = None\<rparr>"
        and y = "\<lparr>p_date = 1, p_dateFormat = None, p_locale = None\<rparr>"
        and yx = 2024 and mx = 2 and yy = 2024 and my = 1] z
    by (simp add: year_def month_def getFullYear_def getMonth_def getTime_def local_field_simps
        utc_simps f num_plus_def)
qed


text \<open>
  C6. The claim has \<^verbatim>\<open>YYYY\<close> replaced by the year padded to four digits. The code pads the
  month, day, hour, minute and second but not the year: in the year 999 the pattern
  \<^verbatim>\<open>YYYY-MM-DD\<close> gives \<^verbatim>\<open>999-06-15\<close>, where \<open>toISOString\<close> has \<^verbatim>\<open>0999\<close>.
\<close>

theorem C6_year_not_padded:
  "format utc_host [Some (- 30627504000000)]
     \<lparr>p_date = 0, p_dateFormat = None, p_locale = None\<rparr> (PatternParam ''YYYY-MM-DD'') =
   Inr ''999-06-15'' \<and>
   toISOString [Some (- 30627504000000)] \<lparr>p_date = 0, p_dateFormat = None, p_locale = None\<rparr> =
   Inr ''0999-06-15T00:00:00.000Z''"
proof -
  have f: "YearFromTime (- 30627504000000) = 999" "MonthFromTime (- 30627504000000) = 5"
    "DateFromTime (- 30627504000000) = 15" "HourFromTime (- 30627504000000) = 0"
    "MinFromTime (- 30627504000000) = 0" "SecFromTime (- 30627504000000) = 0"
    "msFromTime (- 30627504000000) = 0"
    by (simp_all add: cal_defs)
  have g: "year utc_host [Some (- 30627504000000)] \<lparr>p_date = 0, p_dateFormat = None, p_locale = None\<rparr> = Some 999"
    "month utc_host [Some (- 30627504000000)] \<lparr>p_date = 0, p_dateFormat = None, p_locale = None\<rparr> = Some 6"
    "day utc_host [Some (- 30627504000000)] \<lparr>p_date = 0, p_dateFormat = None, p_locale = None\<rparr> = Some 15"
    "hour utc_host [Some (- 30627504000000)] \<lparr>p_date = 0, p_dateFormat = None, p_locale = None\<rparr> = Some 0"
    "minute utc_host [Some (- 30627504000000)] \<lparr>p_date = 0, p_dateFormat = None, p_locale = None\<rparr> = Some 0"
    "second utc_host [Some (- 30627504000000)] \<lparr>p_date = 0, p_dateFormat = None, p_locale = None\<rparr> = Some 0"
    by (simp_all add: year_def month_def day_def hour_def minute_def second_def getFullYear_def
        getMonth_def getDate_def getHours_def getMinutes_def getSeconds_def getTime_def
        local_field_simps utc_simps f num_plus_def)
  have d: "digits 999 = ''999''" "digits 6 = ''6''" "digits 15 = ''15''" "digits 0 = ''0''"
    by (simp_all add: digits.simps)
  have 1: "format utc_host [Some (- 30627504000000)]
     \<lparr>p_date = 0, p_dateFormat = None, p_locale = None\<rparr> (PatternParam ''YYYY-MM-DD'') =
     Inr ''999-06-15''"
    by (simp add: format_def truthy_def manual_format_def g Number_toString_def d padStart_def)
  have 2: "toISOString [Some (- 30627504000000)] \<lparr>p_date = 0, p_dateFormat = None, p_locale = None\<rparr> =
     Inr ''0999-06-15T00:00:00.000Z''"
    by (simp add: toISOString_def Date_toISOString_def getTime_def iso_string_def iso_year_def
        pad_nat_def padStart_def f d replicate_small)
  show ?thesis using 1 2 by simp
qed


text \<open>
  C7. With no locale and no pattern, neither from the argument (none, an empty pattern, or an
  options object without fields) nor from the instance, \<open>format\<close> returns what \<open>toISOString\<close>
  returns: the UTC ISO-8601 rendering of the instant, in which neither the host's time zone
  nor the instance's configuration occurs.
\<close>

theorem C7_format_fallback:
  assumes "p_locale x = None" and "\<not> truthy (p_dateFormat x)"
  shows "format H h x NoParam = toISOString h x \<and>
         format H h x (OptionsParam None None) = toISOString h x \<and>
         format H h x (PatternParam []) = toISOString h x \<and>
         toISOString h x =
           (case valueOf h x of
              None \<Rightarrow> Inl (RangeError ''Invalid time value'')
            | Some t \<Rightarrow> Inr (iso_string t))"
  using assms
  by (simp add: format_def truthy_def toISOString_def Date_toISOString_def valueOf_def
      split: option.splits)

theorem C7_format_fallback_witness:
  "format utc_host [Some 1712275200123] \<lparr>p_date = 0, p_dateFormat = None, p_locale = None\<rparr> NoParam =
     Inr ''2024-04-05T00:00:00.123Z''"
proof -
  have f: "YearFromTime 1712275200123 = 2024" "MonthFromTime 1712275200123 = 3"
    "DateFromTime 1712275200123 = 5" "HourFromTime 1712275200123 = 0"
    "MinFromTime 1712275200123 = 0" "SecFromTime 1712275200123 = 0"
    "msFromTime 1712275200123 = 123"
    by (simp_all add: cal_defs)
  have d: "digits 2024 = ''2024''" "digits 4 = ''4''" "digits 5 = ''5''" "digits 0 = ''0''"
    "digits 123 = ''123''"
    by (simp_all add: digits.simps)
  show ?thesis
    using C7_format_fallback [where H = utc_host and h = "[Some 1712275200123]"
        and x = "\<lparr>p_date = 0, p_dateFormat = None, p_locale = None\<rparr>"]
    by (simp add: truthy_def valueOf_def getTime_def iso_string_def iso_year_def pad_nat_def
        padStart_def f d replicate_small)
qed


end
